theory Spec2Isabelle
  imports Main "HOL-Library.Word" "HOL-Library.Sublist"
begin

unbundle bit_operations_syntax

section \<open>Bytes, exceptions and the outside world\<close>

text \<open>
  The repository is a small Python package (directory \<open>protect-python-app\<close>) that
  encrypts a compiled extension module with Fernet (\<open>encrypt_compiled.py\<close>) and, at
  launch, decrypts it, stages it in a temporary file, imports it and runs it
  (\<open>runtime_loader.py\<close>, \<open>app_launcher.py\<close>).

  Python \<open>bytes\<close> are lists of 8-bit words; a \<open>bytes\<close> literal \<open>b'...'\<close> is
  \<open>bytes_of ''...''\<close>. Python \<open>str\<close> paths and names are \<open>string\<close>.
\<close>

type_synonym byte = "8 word"
type_synonym bytes = "byte list"

definition bytes_of :: "string \<Rightarrow> bytes" where
  "bytes_of s = map of_char s"

text \<open>
  Exceptions are values. \<open>ValueError\<close> carries its message, because the code base
  raises it at three different places. \<open>SystemExit\<close> carries the exit status; it is
  the only constructor that is not a subclass of Python's \<open>Exception\<close>.
\<close>

datatype exn =
    FileNotFoundError
  | FileExistsError
  | OSError
  | OverflowError
  | ValueError string
  | InvalidToken
  | ImportError
  | EOFError
  | PayloadException
  | SystemExit int

fun is_Exception :: "exn \<Rightarrow> bool" where
  "is_Exception (SystemExit n) = False"
| "is_Exception e = True"

text \<open>
  A module object as \<open>importlib.util.module_from_spec\<close> creates it: the attribute
  \<open>__name__\<close> (absent when \<open>None\<close>), the file it was created from, the bytes of
  that file at creation time, and whether the module has been initialised, that is,
  whether the body of the extension module has run.
\<close>

record py_module =
  m_name :: "string option"
  m_origin :: string
  m_image :: bytes
  m_initialised :: bool

text \<open>
  What a run leaves behind that is not a file: the calls of \<open>exec_module\<close> (module
  reference and the module's \<open>__name__\<close> at the call), the executions of the
  payload's module body, which is where a compiled script calls its entry point
  (module reference and the \<open>__name__\<close> the body sees), the calls of \<open>os.unlink\<close>
  (path, and whether the call succeeded) and the lines printed.
\<close>

datatype event =
    Exec nat "string option"
  | Run nat "string option"
  | Unlink string bool
  | Print string

text \<open>
  The process state the code reads and writes: the file system (regular files only),
  the module objects allocated so far (a reference is an index into this list),
  \<open>sys.modules\<close>, and the event log.
\<close>

record world =
  files :: "string \<rightharpoonup> bytes"
  module_objs :: "py_module list"
  sys_modules :: "string \<rightharpoonup> nat"
  events :: "event list"

text \<open>
  Everything the code obtains from its environment and cannot compute: the platform
  name, the process configuration (environment variables), the lines waiting on
  standard input, the clock, the random source, the names \<open>tempfile\<close> tries, a
  possible fault while writing a file (\<open>Some n\<close>: \<open>OSError\<close> after \<open>n\<close> bytes), the
  file suffixes the interpreter has a loader for, the outcome of loading the shared
  object when the extension module is created, whether the payload uses multi-phase
  initialisation (PEP 489; single-phase otherwise), the outcome of the payload's module
  body when it runs with the \<open>__name__\<close> given as argument (\<open>None\<close>: it returns), and
  whether \<open>os.unlink\<close> succeeds. What the payload itself does to files and modules
  while it runs is outside the model.
\<close>

record env =
  platform :: string
  environ :: "string \<rightharpoonup> string"
  stdin :: "string list"
  clock :: nat
  urandom :: "nat \<Rightarrow> bytes"
  tmp_dir :: string
  tmp_names :: "string list"
  write_fault :: "nat option"
  loader_suffixes :: "string list"
  create_fault :: "exn option"
  multi_phase :: bool
  exec_outcome :: "string option \<Rightarrow> exn option"
  unlink_ok :: bool

text \<open>
  The primitives of the \<open>cryptography\<close> package that Fernet is built from are
  parameters: the AES-128 block cipher (key, 16-byte block) and HMAC-SHA256 (key,
  message).
\<close>

record crypto_backend =
  AES_encrypt_block :: "bytes \<Rightarrow> bytes \<Rightarrow> bytes"
  AES_decrypt_block :: "bytes \<Rightarrow> bytes \<Rightarrow> bytes"
  HMAC_SHA256 :: "bytes \<Rightarrow> bytes \<Rightarrow> bytes"

text \<open>
  The contract of the primitives: a block cipher maps 16-byte blocks to 16-byte blocks
  and decryption inverts encryption under the same key; an HMAC-SHA256 tag has 32 bytes.
\<close>

definition backend_ok :: "crypto_backend \<Rightarrow> bool" where
  "backend_ok b \<longleftrightarrow>
     (\<forall>k blk. length blk = 16 \<longrightarrow>
        length (AES_encrypt_block b k blk) = 16 \<and>
        AES_decrypt_block b k (AES_encrypt_block b k blk) = blk) \<and>
     (\<forall>k msg. length (HMAC_SHA256 b k msg) = 32)"

section \<open>URL-safe base64 (\<open>base64.urlsafe_b64encode\<close>, \<open>base64.urlsafe_b64decode\<close>)\<close>

definition table_b2a_base64 :: bytes where
  "table_b2a_base64 =
     bytes_of ''ABCDEFGHIJKLMNOPQRSTUVWXYZabcdefghijklmnopqrstuvwxyz0123456789+/''"

definition BASE64_PAD :: byte where
  "BASE64_PAD = of_char CHR ''=''"

definition b2a :: "byte \<Rightarrow> byte" where
  "b2a s = table_b2a_base64 ! unat s"

fun index_of :: "'a list \<Rightarrow> 'a \<Rightarrow> nat option" where
  "index_of [] c = None"
| "index_of (x # xs) c = (if x = c then Some 0 else map_option Suc (index_of xs c))"

text \<open>The decoding table: the 6-bit value of an alphabet character, nothing otherwise.\<close>

definition table_a2b_base64 :: "byte \<Rightarrow> byte option" where
  "table_a2b_base64 c = map_option of_nat (index_of table_b2a_base64 c)"

text \<open>
  \<open>binascii.b2a_base64\<close> without the newline: three bytes give four characters, and a
  rest of one or two bytes is padded with \<open>=\<close>.
\<close>

fun b2a_base64 :: "bytes \<Rightarrow> bytes" where
  "b2a_base64 (a # b # c # rest) =
     [b2a (drop_bit 2 a),
      b2a (push_bit 4 (a AND 3) OR drop_bit 4 b),
      b2a (push_bit 2 (b AND 15) OR drop_bit 6 c),
      b2a (c AND 63)] @ b2a_base64 rest"
| "b2a_base64 [a, b] =
     [b2a (drop_bit 2 a),
      b2a (push_bit 4 (a AND 3) OR drop_bit 4 b),
      b2a (push_bit 2 (b AND 15)),
      BASE64_PAD]"
| "b2a_base64 [a] =
     [b2a (drop_bit 2 a), b2a (push_bit 4 (a AND 3)), BASE64_PAD, BASE64_PAD]"
| "b2a_base64 [] = []"

datatype binascii_Error = Incorrect_padding | Invalid_length

text \<open>
  \<open>binascii.a2b_base64\<close> in its default, non-strict mode, as \<open>base64.b64decode\<close>
  calls it: characters outside the alphabet are skipped, a complete pad sequence ends
  the input, and the bits of the last character that do not fill a byte are dropped.
  \<open>quad_pos\<close>, \<open>leftchar\<close> and \<open>pads\<close> are the loop's variables.
\<close>

fun a2b_base64_loop ::
  "bytes \<Rightarrow> nat \<Rightarrow> byte \<Rightarrow> nat \<Rightarrow> bytes \<Rightarrow> binascii_Error + bytes" where
  "a2b_base64_loop [] quad_pos leftchar pads out =
     (if quad_pos \<noteq> 0
      then (if quad_pos = 1 then Inl Invalid_length else Inl Incorrect_padding)
      else Inr out)"
| "a2b_base64_loop (this_ch # rest) quad_pos leftchar pads out =
     (if this_ch = BASE64_PAD then
        (if quad_pos \<ge> 2 \<and> quad_pos + (pads + 1) \<ge> 4 then Inr out
         else a2b_base64_loop rest quad_pos leftchar
                (if quad_pos \<ge> 2 then pads + 1 else pads) out)
      else
        (case table_a2b_base64 this_ch of
           None \<Rightarrow> a2b_base64_loop rest quad_pos leftchar pads out
         | Some v \<Rightarrow>
             (if quad_pos = 0 then a2b_base64_loop rest 1 v 0 out
              else if quad_pos = 1 then
                a2b_base64_loop rest 2 (v AND 15) 0
                  (out @ [push_bit 2 leftchar OR drop_bit 4 v])
              else if quad_pos = 2 then
                a2b_base64_loop rest 3 (v AND 3) 0
                  (out @ [push_bit 4 leftchar OR drop_bit 2 v])
              else
                a2b_base64_loop rest 0 0 0 (out @ [push_bit 6 leftchar OR v]))))"

definition a2b_base64 :: "bytes \<Rightarrow> binascii_Error + bytes" where
  "a2b_base64 s = a2b_base64_loop s 0 0 0 []"

definition urlsafe_encode_translation :: "byte \<Rightarrow> byte" where
  "urlsafe_encode_translation c =
     (if c = of_char CHR ''+'' then of_char CHR ''-''
      else if c = of_char CHR ''/'' then of_char CHR ''_'' else c)"

definition urlsafe_decode_translation :: "byte \<Rightarrow> byte" where
  "urlsafe_decode_translation c =
     (if c = of_char CHR ''-'' then of_char CHR ''+''
      else if c = of_char CHR ''_'' then of_char CHR ''/'' else c)"

definition urlsafe_b64encode :: "bytes \<Rightarrow> bytes" where
  "urlsafe_b64encode s = map urlsafe_encode_translation (b2a_base64 s)"

definition urlsafe_b64decode :: "bytes \<Rightarrow> binascii_Error + bytes" where
  "urlsafe_b64decode s = a2b_base64 (map urlsafe_decode_translation s)"

section \<open>Fernet (\<open>cryptography.fernet.Fernet\<close>)\<close>

text \<open>
  Fernet is not part of the repository; the model follows the package's
  \<open>fernet.py\<close>: a key is 32 bytes in URL-safe base64 (16 bytes signing key, then 16
  bytes encryption key); a token is the URL-safe base64 of
  \<open>0x80 || timestamp (8 bytes, big endian) || IV (16 bytes) || AES-128-CBC ciphertext
  of the PKCS7-padded data || HMAC-SHA256 of all that\<close>.
\<close>

record fernet =
  signing_key :: bytes
  encryption_key :: bytes

definition key_error_message :: string where
  "key_error_message = ''Fernet key must be 32 url-safe base64-encoded bytes.''"

text \<open>\<open>Fernet.__init__\<close>: the key is checked when the object is constructed.\<close>

definition Fernet_init :: "bytes \<Rightarrow> exn + fernet" where
  "Fernet_init key =
     (case urlsafe_b64decode key of
        Inl e \<Rightarrow> Inl (ValueError key_error_message)
      | Inr k \<Rightarrow>
          if length k \<noteq> 32 then Inl (ValueError key_error_message)
          else Inr \<lparr>signing_key = take 16 k, encryption_key = drop 16 k\<rparr>)"

text \<open>\<open>Fernet.generate_key\<close>.\<close>

definition Fernet_generate_key :: "env \<Rightarrow> bytes" where
  "Fernet_generate_key e = urlsafe_b64encode (urandom e 32)"

text \<open>\<open>int.to_bytes(length, byteorder="big")\<close> for a non-negative integer.\<close>

primrec big_endian :: "nat \<Rightarrow> nat \<Rightarrow> bytes" where
  "big_endian 0 n = []"
| "big_endian (Suc k) n = big_endian k (n div 256) @ [of_nat n]"

definition to_bytes :: "nat \<Rightarrow> nat \<Rightarrow> exn + bytes" where
  "to_bytes n len = (if n < 256 ^ len then Inr (big_endian len n) else Inl OverflowError)"

definition xor_bytes :: "bytes \<Rightarrow> bytes \<Rightarrow> bytes" where
  "xor_bytes xs ys = map (\<lambda>(x, y). x XOR y) (zip xs ys)"

text \<open>PKCS7 padding to the AES block size of 16 bytes.\<close>

definition pkcs7_pad :: "bytes \<Rightarrow> bytes" where
  "pkcs7_pad data =
     (let pad_size = 16 - length data mod 16
      in data @ replicate pad_size (of_nat pad_size))"

definition pkcs7_unpad :: "bytes \<Rightarrow> exn + bytes" where
  "pkcs7_unpad padded =
     (if padded = [] \<or> length padded mod 16 \<noteq> 0
      then Inl (ValueError ''Invalid padding bytes.'')
      else
        let pad_size = unat (last padded) in
        if pad_size = 0 \<or> pad_size > 16
           \<or> drop (length padded - pad_size) padded \<noteq> replicate pad_size (last padded)
        then Inl (ValueError ''Invalid padding bytes.'')
        else Inr (take (length padded - pad_size) padded))"

text \<open>
  CBC mode over 16-byte blocks; \<open>prev\<close> is the IV, then the previous ciphertext
  block. The encryptor only ever sees padded data, whose length is a multiple of 16.
\<close>

fun cbc_encrypt :: "(bytes \<Rightarrow> bytes) \<Rightarrow> bytes \<Rightarrow> bytes \<Rightarrow> bytes" where
  "cbc_encrypt E prev data =
     (if data = [] then []
      else
        let c = E (xor_bytes (take 16 data) prev)
        in c @ cbc_encrypt E c (drop 16 data))"

fun cbc_decrypt :: "(bytes \<Rightarrow> bytes) \<Rightarrow> bytes \<Rightarrow> bytes \<Rightarrow> bytes" where
  "cbc_decrypt D prev ciphertext =
     (if ciphertext = [] then []
      else
        let c = take 16 ciphertext
        in xor_bytes (D c) prev @ cbc_decrypt D c (drop 16 ciphertext))"

text \<open>\<open>Fernet._encrypt_from_parts\<close>.\<close>

definition Fernet_encrypt_from_parts ::
  "crypto_backend \<Rightarrow> fernet \<Rightarrow> bytes \<Rightarrow> nat \<Rightarrow> bytes \<Rightarrow> exn + bytes" where
  "Fernet_encrypt_from_parts b f data current_time iv =
     (let padded_data = pkcs7_pad data;
          ciphertext = cbc_encrypt (AES_encrypt_block b (encryption_key f)) iv padded_data
      in case to_bytes current_time 8 of
           Inl e \<Rightarrow> Inl e
         | Inr ts \<Rightarrow>
             let basic_parts = [0x80] @ ts @ iv @ ciphertext;
                 hmac = HMAC_SHA256 b (signing_key f) basic_parts
             in Inr (urlsafe_b64encode (basic_parts @ hmac)))"

text \<open>
  \<open>Fernet.encrypt\<close>: the timestamp is \<open>int(time.time())\<close>, the IV is
  \<open>os.urandom(16)\<close>.
\<close>

definition Fernet_encrypt :: "env \<Rightarrow> crypto_backend \<Rightarrow> fernet \<Rightarrow> bytes \<Rightarrow> exn + bytes" where
  "Fernet_encrypt e b f data = Fernet_encrypt_from_parts b f data (clock e) (urandom e 16)"

text \<open>
  \<open>Fernet.decrypt\<close> without a time-to-live: decode, check the version byte and the
  minimal length, verify the HMAC over everything but the last 32 bytes, then decrypt
  and unpad. \<open>data[-32:]\<close> and \<open>data[:-32]\<close> are the whole and the empty string when
  \<open>data\<close> has fewer than 32 bytes, as truncated subtraction gives here.
\<close>

definition Fernet_decrypt :: "crypto_backend \<Rightarrow> fernet \<Rightarrow> bytes \<Rightarrow> exn + bytes" where
  "Fernet_decrypt b f token =
     (case urlsafe_b64decode token of
        Inl e \<Rightarrow> Inl InvalidToken
      | Inr data \<Rightarrow>
          if data = [] \<or> hd data \<noteq> 0x80 then Inl InvalidToken
          else if length data < 9 then Inl InvalidToken
          else if HMAC_SHA256 b (signing_key f) (take (length data - 32) data)
                  \<noteq> drop (length data - 32) data
          then Inl InvalidToken
          else
            let iv = take 16 (drop 9 data);
                ciphertext = drop 25 (take (length data - 32) data)
            in if length iv \<noteq> 16 then Inl (ValueError ''Invalid IV size for CBC.'')
               else if length ciphertext mod 16 \<noteq> 0 then Inl InvalidToken
               else
                 (case pkcs7_unpad
                         (cbc_decrypt (AES_decrypt_block b (encryption_key f)) iv ciphertext) of
                    Inl e \<Rightarrow> Inl InvalidToken
                  | Inr unpadded \<Rightarrow> Inr unpadded))"

section \<open>File system and paths\<close>

definition os_path_exists :: "world \<Rightarrow> string \<Rightarrow> bool" where
  "os_path_exists w p \<longleftrightarrow> files w p \<noteq> None"

text \<open>\<open>open(path, 'rb').read()\<close>.\<close>

definition read_file :: "world \<Rightarrow> string \<Rightarrow> exn + bytes" where
  "read_file w p = (case files w p of None \<Rightarrow> Inl FileNotFoundError | Some d \<Rightarrow> Inr d)"

text \<open>
  Writing \<open>data\<close> to a file opened with mode \<open>'wb'\<close>: opening creates or truncates
  the file, then the bytes arrive in order. The states the file system goes through
  are the prefixes; an interrupted process leaves one of them behind.
\<close>

definition file_write_states :: "string \<Rightarrow> bytes \<Rightarrow> world \<Rightarrow> world list" where
  "file_write_states p data w =
     map (\<lambda>n. w\<lparr>files := (files w)(p \<mapsto> take n data)\<rparr>) [0..<Suc (length data)]"

text \<open>
  The write as the running process sees it: complete, or \<open>OSError\<close> with the bytes
  written so far left in the file.
\<close>

definition write_file :: "env \<Rightarrow> string \<Rightarrow> bytes \<Rightarrow> world \<Rightarrow> (exn + unit) \<times> world" where
  "write_file e p data w =
     (case write_fault e of
        None \<Rightarrow> (Inr (), w\<lparr>files := (files w)(p \<mapsto> data)\<rparr>)
      | Some n \<Rightarrow> (Inl OSError, w\<lparr>files := (files w)(p \<mapsto> take n data)\<rparr>))"

text \<open>\<open>os.unlink\<close>; every call is logged with its outcome.\<close>

definition os_unlink :: "env \<Rightarrow> string \<Rightarrow> world \<Rightarrow> (exn + unit) \<times> world" where
  "os_unlink e p w =
     (if files w p \<noteq> None \<and> unlink_ok e
      then (Inr (), w\<lparr>files := (files w)(p := None), events := events w @ [Unlink p True]\<rparr>)
      else (Inl (if files w p = None then FileNotFoundError else OSError),
            w\<lparr>events := events w @ [Unlink p False]\<rparr>))"

text \<open>
  \<open>tempfile.NamedTemporaryFile(suffix=suffix, delete=False)\<close>: the first candidate
  name that does not exist yet is created empty; \<open>FileExistsError\<close> when every
  candidate exists.
\<close>

definition NamedTemporaryFile :: "env \<Rightarrow> string \<Rightarrow> world \<Rightarrow> (exn + string) \<times> world" where
  "NamedTemporaryFile e sfx w =
     (case find (\<lambda>p. files w p = None)
             (map (\<lambda>n. tmp_dir e @ ''/tmp'' @ n @ sfx) (tmp_names e)) of
        None \<Rightarrow> (Inl FileExistsError, w)
      | Some p \<Rightarrow> (Inr p, w\<lparr>files := (files w)(p \<mapsto> [])\<rparr>))"

text \<open>\<open>str.rfind\<close> for a single character: the last index, or \<open>-1\<close>.\<close>

definition rfind :: "string \<Rightarrow> char \<Rightarrow> int" where
  "rfind s c =
     (if c \<in> set s
      then int (length s) - 1 - int (length (takeWhile (\<lambda>x. x \<noteq> c) (rev s)))
      else - 1)"

text \<open>\<open>os.path.basename\<close> and \<open>os.path.splitext\<close> as \<open>posixpath\<close> defines them.\<close>

definition os_path_basename :: "string \<Rightarrow> string" where
  "os_path_basename p = drop (nat (rfind p CHR ''/'' + 1)) p"

function splitext_loop :: "string \<Rightarrow> nat \<Rightarrow> nat \<Rightarrow> string \<times> string" where
  "splitext_loop p filenameIndex dotIndex =
     (if filenameIndex < dotIndex then
        (if p ! filenameIndex \<noteq> CHR ''.'' then (take dotIndex p, drop dotIndex p)
         else splitext_loop p (filenameIndex + 1) dotIndex)
      else (p, []))"
  by pat_completeness auto
termination
  by (relation "measure (\<lambda>(p, i, d). d - i)") auto

definition os_path_splitext :: "string \<Rightarrow> string \<times> string" where
  "os_path_splitext p =
     (let sepIndex = rfind p CHR ''/'';
          dotIndex = rfind p CHR ''.''
      in if dotIndex > sepIndex then splitext_loop p (nat (sepIndex + 1)) (nat dotIndex)
         else (p, []))"

definition endswith :: "string \<Rightarrow> string \<Rightarrow> bool" where
  "endswith s x \<longleftrightarrow> suffix x s"

section \<open>\<open>encrypt_compiled.py\<close>\<close>

text \<open>The class attribute \<open>CompiledEncryptor.ENCRYPTION_KEY\<close>, a literal in the source.\<close>

definition ENCRYPTION_KEY :: bytes where
  "ENCRYPTION_KEY = bytes_of ''2A4cD5H-9n-y2SrQRT3UZ9cPaZFo5a0iAdRQeT7ZnUw=''"

text \<open>\<open>CompiledEncryptor.generate_key\<close>.\<close>

definition generate_key :: "env \<Rightarrow> world \<Rightarrow> bytes \<times> world" where
  "generate_key e w =
     (let key = Fernet_generate_key e
      in (key, w\<lparr>events := events w @
                   [Print ''Generated encryption key'',
                    Print ''Update ENCRYPTION_KEY in both encrypt_compiled.py and runtime_loader.py'']\<rparr>))"

text \<open>
  \<open>CompiledEncryptor.encrypt_file(file_path, output_path)\<close>. The first argument is
  the value of \<open>cls.ENCRYPTION_KEY\<close>. The source file is read, the cipher is
  constructed, the data is encrypted, and the token is written straight to
  \<open>output_path\<close>.
\<close>

definition encrypt_file ::
  "bytes \<Rightarrow> env \<Rightarrow> crypto_backend \<Rightarrow> string \<Rightarrow> string option \<Rightarrow> world
     \<Rightarrow> (exn + string) \<times> world" where
  "encrypt_file cls_key e b file_path output_path w =
     (let out = (case output_path of None \<Rightarrow> file_path @ ''.encrypted'' | Some p \<Rightarrow> p)
      in case read_file w file_path of
           Inl x \<Rightarrow> (Inl x, w)
         | Inr data \<Rightarrow>
             (case Fernet_init cls_key of
                Inl x \<Rightarrow> (Inl x, w)
              | Inr f \<Rightarrow>
                  (case Fernet_encrypt e b f data of
                     Inl x \<Rightarrow> (Inl x, w)
                   | Inr encrypted_data \<Rightarrow>
                       (case write_file e out encrypted_data w of
                          (Inl x, w') \<Rightarrow> (Inl x, w')
                        | (Inr u, w') \<Rightarrow>
                            (Inr out,
                             w'\<lparr>events := events w' @ [Print ''File encrypted successfully'']\<rparr>)))))"

text \<open>
  The file-system states an execution of \<open>encrypt_file\<close> passes through, in order:
  the state before, then the states of the write to \<open>output_path\<close>. A process killed
  during the call leaves one of them.
\<close>

definition encrypt_file_states ::
  "bytes \<Rightarrow> env \<Rightarrow> crypto_backend \<Rightarrow> string \<Rightarrow> string option \<Rightarrow> world \<Rightarrow> world list" where
  "encrypt_file_states cls_key e b file_path output_path w =
     (let out = (case output_path of None \<Rightarrow> file_path @ ''.encrypted'' | Some p \<Rightarrow> p)
      in case read_file w file_path of
           Inl x \<Rightarrow> [w]
         | Inr data \<Rightarrow>
             (case Fernet_init cls_key of
                Inl x \<Rightarrow> [w]
              | Inr f \<Rightarrow>
                  (case Fernet_encrypt e b f data of
                     Inl x \<Rightarrow> [w]
                   | Inr encrypted_data \<Rightarrow> w # file_write_states out encrypted_data w)))"

text \<open>\<open>input()\<close>: the next line of standard input.\<close>

definition input_line :: "env \<Rightarrow> nat \<Rightarrow> exn + string" where
  "input_line e i = (if i < length (stdin e) then Inr (stdin e ! i) else Inl EOFError)"

text \<open>The script body under \<open>if __name__ == "__main__"\<close>; \<open>argv\<close> is \<open>sys.argv\<close>.\<close>

definition encrypt_compiled_main ::
  "env \<Rightarrow> crypto_backend \<Rightarrow> string list \<Rightarrow> world \<Rightarrow> (exn + unit) \<times> world" where
  "encrypt_compiled_main e b argv w =
     (if length argv = 1 then
        (case input_line e 0 of
           Inl x \<Rightarrow> (Inl x, w)
         | Inr choice \<Rightarrow>
             if choice = ''1'' then (Inr (), snd (generate_key e w))
             else if choice = ''2'' then
               (case input_line e 1 of
                  Inl x \<Rightarrow> (Inl x, w)
                | Inr compiled_file \<Rightarrow>
                    if os_path_exists w compiled_file then
                      (case encrypt_file ENCRYPTION_KEY e b compiled_file None w of
                         (Inl x, w') \<Rightarrow> (Inl x, w')
                       | (Inr p, w') \<Rightarrow> (Inr (), w'))
                    else (Inr (), w\<lparr>events := events w @ [Print ''File not found!'']\<rparr>))
             else (Inr (), w))
      else if length argv = 2 then
        (let compiled_file = argv ! 1
         in if os_path_exists w compiled_file then
              (case encrypt_file ENCRYPTION_KEY e b compiled_file None w of
                 (Inl x, w') \<Rightarrow> (Inl x, w')
               | (Inr p, w') \<Rightarrow> (Inr (), w'))
            else (Inr (), w\<lparr>events := events w @ [Print ''File not found!'']\<rparr>))
      else (Inr (), w))"

section \<open>\<open>runtime_loader.py\<close>\<close>

text \<open>The class attribute \<open>CythonRuntimeLoader.DECRYPTION_KEY\<close>, a literal in the source.\<close>

definition DECRYPTION_KEY :: bytes where
  "DECRYPTION_KEY = bytes_of ''2A4cD5H-9n-y2SrQRT3UZ9cPaZFo5a0iAdRQeT7ZnUw=''"

record loader =
  encrypted_file_path :: string
  "module_name" :: string

text \<open>
  \<open>CythonRuntimeLoader.__init__(encrypted_file_path, module_name=None)\<close>:
  \<open>module_name or splitext(basename(path))[0]\<close>, then a trailing \<open>.encrypted\<close> is cut.
\<close>

definition CythonRuntimeLoader_init :: "string \<Rightarrow> string option \<Rightarrow> loader" where
  "CythonRuntimeLoader_init path name =
     (let derived = fst (os_path_splitext (os_path_basename path));
          n = (case name of None \<Rightarrow> derived | Some x \<Rightarrow> if x = [] then derived else x)
      in \<lparr>encrypted_file_path = path,
          module_name = (if endswith n ''.encrypted'' then take (length n - 10) n else n)\<rparr>)"

definition decrypt_error_message :: string where
  "decrypt_error_message = ''Failed to decrypt file. Invalid encryption key.''"

text \<open>
  \<open>CythonRuntimeLoader._decrypt_file\<close>. The first argument is the value of
  \<open>self.DECRYPTION_KEY\<close>. The cipher is constructed outside the \<open>try\<close>; every
  \<open>Exception\<close> of \<open>fernet.decrypt\<close> becomes the \<open>ValueError\<close> of the handler.
\<close>

definition decrypt_file :: "bytes \<Rightarrow> crypto_backend \<Rightarrow> loader \<Rightarrow> world \<Rightarrow> exn + bytes" where
  "decrypt_file cls_key b self w =
     (case read_file w (encrypted_file_path self) of
        Inl x \<Rightarrow> Inl x
      | Inr encrypted_data \<Rightarrow>
          (case Fernet_init cls_key of
             Inl x \<Rightarrow> Inl x
           | Inr f \<Rightarrow>
               (case Fernet_decrypt b f encrypted_data of
                  Inl x \<Rightarrow> if is_Exception x then Inl (ValueError decrypt_error_message) else Inl x
                | Inr decrypted_data \<Rightarrow> Inr decrypted_data)))"

text \<open>\<open>CythonRuntimeLoader._get_extension_suffix\<close>.\<close>

definition get_extension_suffix :: "env \<Rightarrow> string" where
  "get_extension_suffix e = (if platform e = ''win32'' then ''.pyd'' else ''.so'')"

record module_spec =
  spec_name :: string
  spec_origin :: string

text \<open>
  \<open>importlib.util.spec_from_file_location(name, location)\<close>: a spec when the
  interpreter has a loader for the file's suffix, \<open>None\<close> otherwise.
\<close>

definition spec_from_file_location :: "env \<Rightarrow> string \<Rightarrow> string \<Rightarrow> module_spec option" where
  "spec_from_file_location e name location =
     (if list_ex (\<lambda>s. endswith location s) (loader_suffixes e)
      then Some \<lparr>spec_name = name, spec_origin = location\<rparr>
      else None)"

text \<open>
  \<open>importlib.util.module_from_spec(spec)\<close>: the extension loader
  (\<open>ExtensionFileLoader.create_module\<close>) maps the file and creates the module object,
  with \<open>__name__\<close> set from the spec. A single-phase extension runs its module body
  right here, in its init function; a multi-phase extension is created uninitialised.
\<close>

definition module_from_spec :: "env \<Rightarrow> module_spec \<Rightarrow> world \<Rightarrow> (exn + nat) \<times> world" where
  "module_from_spec e spec w =
     (case create_fault e of
        Some x \<Rightarrow> (Inl x, w)
      | None \<Rightarrow>
          (case files w (spec_origin spec) of
             None \<Rightarrow> (Inl ImportError, w)
           | Some img \<Rightarrow>
               (let m = length (module_objs w);
                    obj = \<lparr>m_name = Some (spec_name spec), m_origin = spec_origin spec,
                           m_image = img, m_initialised = (\<not> multi_phase e)\<rparr>
                in if multi_phase e
                   then (Inr m, w\<lparr>module_objs := module_objs w @ [obj]\<rparr>)
                   else
                     (let w' = w\<lparr>module_objs := module_objs w @ [obj],
                                  events := events w @ [Run m (Some (spec_name spec))]\<rparr>
                      in case exec_outcome e (Some (spec_name spec)) of
                           None \<Rightarrow> (Inr m, w')
                         | Some x \<Rightarrow> (Inl x, w')))))"

text \<open>
  \<open>spec.loader.exec_module(module)\<close>, which for an extension module is
  \<open>ExtensionFileLoader.exec_module\<close>: every call is logged; on a module that is
  already initialised it does nothing, otherwise it runs the module body, with the
  outcome the environment gives.
\<close>

definition exec_module :: "env \<Rightarrow> nat \<Rightarrow> world \<Rightarrow> (exn + unit) \<times> world" where
  "exec_module e m w =
     (let name = m_name (module_objs w ! m);
          w1 = w\<lparr>events := events w @ [Exec m name]\<rparr>
      in if m_initialised (module_objs w ! m) then (Inr (), w1)
         else
           (let w2 = w1\<lparr>module_objs := (module_objs w1)
                                          [m := (module_objs w1 ! m)\<lparr>m_initialised := True\<rparr>],
                        events := events w1 @ [Run m name]\<rparr>
            in case exec_outcome e name of
                 None \<Rightarrow> (Inr (), w2)
               | Some x \<Rightarrow> (Inl x, w2)))"

text \<open>The body of the inner \<open>try\<close> of \<open>load_and_run\<close>, up to \<open>return module\<close>.\<close>

definition load_staged :: "env \<Rightarrow> loader \<Rightarrow> string \<Rightarrow> world \<Rightarrow> (exn + nat) \<times> world" where
  "load_staged e self temp_file_path w =
     (case spec_from_file_location e (module_name self) temp_file_path of
        None \<Rightarrow> (Inl ImportError, w)
      | Some spec \<Rightarrow>
          (case module_from_spec e spec w of
             (Inl x, w1) \<Rightarrow> (Inl x, w1)
           | (Inr m, w1) \<Rightarrow>
               (let w2 = w1\<lparr>sys_modules := (sys_modules w1)(module_name self \<mapsto> m)\<rparr>
                in case exec_module e m w2 of
                     (Inl x, w3) \<Rightarrow> (Inl x, w3)
                   | (Inr u, w3) \<Rightarrow>
                       if m_name (module_objs w3 ! m) \<noteq> None then
                         (let w4 = w3\<lparr>module_objs := (module_objs w3)
                                       [m := (module_objs w3 ! m)\<lparr>m_name := Some ''__main__''\<rparr>]\<rparr>
                          in case exec_module e m w4 of
                               (Inl x, w5) \<Rightarrow> (Inl x, w5)
                             | (Inr u, w5) \<Rightarrow> (Inr m, w5))
                       else (Inr m, w3))))"

text \<open>
  The body of the outer \<open>try\<close> of \<open>load_and_run\<close>: decrypt, stage the payload in a
  temporary file, load it, and in the \<open>finally\<close> clause unlink the temporary file,
  ignoring whatever \<open>os.unlink\<close> raises.
\<close>

definition load_and_run_body ::
  "bytes \<Rightarrow> env \<Rightarrow> crypto_backend \<Rightarrow> loader \<Rightarrow> world \<Rightarrow> (exn + nat) \<times> world" where
  "load_and_run_body cls_key e b self w =
     (case decrypt_file cls_key b self w of
        Inl x \<Rightarrow> (Inl x, w)
      | Inr decrypted_data \<Rightarrow>
          (case NamedTemporaryFile e (get_extension_suffix e) w of
             (Inl x, w1) \<Rightarrow> (Inl x, w1)
           | (Inr temp_file_path, w1) \<Rightarrow>
               (case write_file e temp_file_path decrypted_data w1 of
                  (Inl x, w2) \<Rightarrow> (Inl x, w2)
                | (Inr u, w2) \<Rightarrow>
                    (let (r, w3) = load_staged e self temp_file_path w2
                     in (r, snd (os_unlink e temp_file_path w3))))))"

text \<open>
  \<open>CythonRuntimeLoader.load_and_run\<close>: every \<open>Exception\<close> of the body is printed and
  turned into \<open>sys.exit(1)\<close>.
\<close>

definition load_and_run ::
  "bytes \<Rightarrow> env \<Rightarrow> crypto_backend \<Rightarrow> loader \<Rightarrow> world \<Rightarrow> (exn + nat) \<times> world" where
  "load_and_run cls_key e b self w =
     (case load_and_run_body cls_key e b self w of
        (Inl x, w') \<Rightarrow>
          if is_Exception x
          then (Inl (SystemExit 1),
                w'\<lparr>events := events w' @ [Print ''Error loading encrypted extension'']\<rparr>)
          else (Inl x, w')
      | (Inr m, w') \<Rightarrow> (Inr m, w'))"

text \<open>\<open>main\<close> of \<open>runtime_loader.py\<close>; \<open>argv\<close> is \<open>sys.argv\<close>.\<close>

definition main :: "env \<Rightarrow> crypto_backend \<Rightarrow> string list \<Rightarrow> world \<Rightarrow> (exn + unit) \<times> world" where
  "main e b argv w =
     (if length argv \<noteq> 2 then
        (Inl (SystemExit 1),
         w\<lparr>events := events w @
              [Print ''Usage: python runtime_loader.py <encrypted_compiled_file>'']\<rparr>)
      else
        (let encrypted_file = argv ! 1
         in if \<not> os_path_exists w encrypted_file then
              (Inl (SystemExit 1),
               w\<lparr>events := events w @ [Print ''Encrypted file not found'']\<rparr>)
            else
              (case load_and_run DECRYPTION_KEY e b
                      (CythonRuntimeLoader_init encrypted_file None) w of
                 (Inl x, w') \<Rightarrow> (Inl x, w')
               | (Inr m, w') \<Rightarrow> (Inr (), w'))))"

section \<open>\<open>app_launcher.py\<close>\<close>

definition ENCRYPTED_APP_NAME :: string where
  "ENCRYPTED_APP_NAME = ''app.encrypted''"

definition app_launcher_main :: "env \<Rightarrow> crypto_backend \<Rightarrow> world \<Rightarrow> (exn + unit) \<times> world" where
  "app_launcher_main e b w =
     (if \<not> os_path_exists w ENCRYPTED_APP_NAME then
        (Inl (SystemExit 1),
         w\<lparr>events := events w @ [Print ''Encrypted application not found'']\<rparr>)
      else
        (case load_and_run DECRYPTION_KEY e b
                (CythonRuntimeLoader_init ENCRYPTED_APP_NAME None) w of
           (Inl x, w') \<Rightarrow> (Inl x, w')
         | (Inr m, w') \<Rightarrow> (Inr (), w')))"

text \<open>
  The exit status of the interpreter when the script ends with this result: 0 when it
  runs to its end, the argument of \<open>sys.exit\<close>, and 1 for an uncaught exception.
\<close>

fun exit_status :: "exn + 'a \<Rightarrow> int" where
  "exit_status (Inr v) = 0"
| "exit_status (Inl (SystemExit n)) = n"
| "exit_status (Inl x) = 1"

section \<open>Auxiliary definitions\<close>

text \<open>The character of a 6-bit value as the decoder sees it, after both translations.\<close>

definition tchar :: "byte \<Rightarrow> byte" where
  "tchar s = urlsafe_decode_translation (urlsafe_encode_translation (b2a s))"

text \<open>
  What the model expects of the clock and the random source: the time fits the 8-byte
  timestamp field, and \<open>os.urandom(16)\<close> returns 16 bytes.
\<close>

definition env_ok :: "env \<Rightarrow> bool" where
  "env_ok e \<longleftrightarrow> clock e < 2 ^ 64 \<and> length (urandom e 16) = 16"

text \<open>
  A stand-in backend that satisfies the contract, for running the model on examples:
  the block cipher XORs the block with the key, the tag repeats the byte sum of key
  and message.
\<close>

definition toy_backend :: crypto_backend where
  "toy_backend =
     \<lparr>AES_encrypt_block = (\<lambda>k blk. xor_bytes blk (take 16 (k @ replicate 16 0))),
      AES_decrypt_block = (\<lambda>k blk. xor_bytes blk (take 16 (k @ replicate 16 0))),
      HMAC_SHA256 = (\<lambda>k msg. replicate 32 (foldr (+) (k @ msg) 0))\<rparr>"

text \<open>An example: a Linux host, and a build directory holding a compiled extension.\<close>

definition example_env :: env where
  "example_env =
     \<lparr>platform = ''linux'', environ = Map.empty, stdin = [], clock = 1700000000,
      urandom = (\<lambda>n. replicate n 7), tmp_dir = ''/tmp'', tmp_names = [''abc123''],
      write_fault = None, loader_suffixes = [''.so''], create_fault = None,
      multi_phase = True, exec_outcome = (\<lambda>n. None), unlink_ok = True\<rparr>"

definition example_payload :: bytes where
  "example_payload = bytes_of ''ELF''"

definition example_world :: world where
  "example_world =
     \<lparr>files = [''build/app.so'' \<mapsto> example_payload], module_objs = [],
      sys_modules = Map.empty, events = []\<rparr>"

text \<open>The bytes the shipped key decodes to: signing key, then encryption key.\<close>

definition shipped_fernet :: fernet where
  "shipped_fernet =
     \<lparr>signing_key = [216, 14, 28, 15, 145, 254, 246, 127, 178, 217, 42, 208, 69, 61, 212, 103],
      encryption_key = [215, 15, 105, 145, 104, 229, 173, 34, 1, 212, 80, 121, 62, 217, 157, 76]\<rparr>"

text \<open>
  The artifact shipped in the example (the example payload sealed with the shipped key)
  and the state of a host where only this artifact is installed.
\<close>

definition example_artifact :: bytes where
  "example_artifact =
     (case Fernet_encrypt example_env toy_backend shipped_fernet example_payload of
        Inl x \<Rightarrow> []
      | Inr token \<Rightarrow> token)"

definition deployed_world :: world where
  "deployed_world =
     \<lparr>files = [''app.encrypted'' \<mapsto> example_artifact], module_objs = [],
      sys_modules = Map.empty, events = []\<rparr>"

text \<open>The same host with the artifact replaced by bytes that are no Fernet token.\<close>

definition corrupt_world :: world where
  "corrupt_world =
     \<lparr>files = [''app.encrypted'' \<mapsto> bytes_of ''garbage''], module_objs = [],
      sys_modules = Map.empty, events = []\<rparr>"



fun is_Unlink :: "event \<Rightarrow> bool" where
  "is_Unlink (Unlink p ok) = True"
| "is_Unlink ev = False"



definition unlink_calls :: "world \<Rightarrow> event list" where
  "unlink_calls w = filter is_Unlink (events w)"

text \<open>
  The state in which \<open>load_and_run\<close> reaches its \<open>finally\<close> clause on the path where
  nothing raises: the payload \<open>P\<close> staged at \<open>tmp\<close>, the module object created from
  it (a new reference), initialised and renamed to \<open>__main__\<close>, registered in
  \<open>sys.modules\<close>, and \<open>exec_module\<close> called on it twice. The module body has run
  once: in the first \<open>exec_module\<close> call when the payload is a multi-phase extension
  (\<open>mp\<close>), during creation otherwise.
\<close>

definition loaded_world :: "loader \<Rightarrow> string \<Rightarrow> bytes \<Rightarrow> bool \<Rightarrow> world \<Rightarrow> world" where
  "loaded_world self tmp P mp w =
     w\<lparr>files := (files w)(tmp \<mapsto> P),
       module_objs := module_objs w @
         [\<lparr>m_name = Some ''__main__'', m_origin = tmp, m_image = P, m_initialised = True\<rparr>],
       sys_modules := (sys_modules w)(module_name self \<mapsto> length (module_objs w)),
       events := events w @
         (if mp
          then [Exec (length (module_objs w)) (Some (module_name self)),
                Run (length (module_objs w)) (Some (module_name self)),
                Exec (length (module_objs w)) (Some ''__main__'')]
          else [Run (length (module_objs w)) (Some (module_name self)),
                Exec (length (module_objs w)) (Some (module_name self)),
                Exec (length (module_objs w)) (Some ''__main__'')])\<rparr>"



text \<open>
  A one-byte modification of an artifact: the third-last character (the last one before
  a \<open>==\<close> padding) is replaced by the character whose 6-bit value has the lowest bit
  set.
\<close>

definition flip_slack_bit :: "bytes \<Rightarrow> bytes" where
  "flip_slack_bit artifact =
     (let i = length artifact - 3
      in case table_a2b_base64 (urlsafe_decode_translation (artifact ! i)) of
           None \<Rightarrow> artifact
         | Some v \<Rightarrow> artifact[i := urlsafe_encode_translation (b2a (v OR 1))])"





text \<open>
  The recursive equations of the loops are unfolded by hand: as rewrite rules they
  would unfold without end on a symbolic argument.
\<close>

declare cbc_encrypt.simps [simp del]
declare cbc_decrypt.simps [simp del]
declare splitext_loop.simps [simp del]

section \<open>Base64: decoding inverts encoding\<close>

lemma and_3_take_bit: "(x::byte) AND 3 = take_bit 2 x" 
  by (simp add: take_bit_eq_mask mask_eq_exp_minus_1)
lemma and_15_take_bit: "(x::byte) AND 15 = take_bit 4 x" 
  by (simp add: take_bit_eq_mask mask_eq_exp_minus_1)
lemma and_63_take_bit: "(x::byte) AND 63 = take_bit 6 x" 
  by (simp add: take_bit_eq_mask mask_eq_exp_minus_1)

lemma Suc_Suc_diff_2: "Suc (Suc (n - 2)) = (if 2 \<le> n then n else 2)"
  by (simp split: if_splits) arith

lemma sextets_byte1: "push_bit 2 (drop_bit 2 a) OR drop_bit 4 (push_bit 4 (a AND 3) OR drop_bit 4 b) = (a::byte)"
  unfolding and_3_take_bit and_15_take_bit and_63_take_bit
  by (rule bit_word_eqI) (auto simp: bit_simps Suc_Suc_diff_2)

lemma sextets_byte2: "push_bit 4 ((push_bit 4 (a AND 3) OR drop_bit 4 b) AND 15) OR drop_bit 2 (push_bit 2 (b AND 15) OR drop_bit 6 c) = (b::byte)"
  unfolding and_3_take_bit and_15_take_bit and_63_take_bit
  by (rule bit_word_eqI) (auto simp: bit_simps)

lemma sextets_byte3: "push_bit 6 ((push_bit 2 (b AND 15) OR drop_bit 6 c) AND 3) OR (c AND 63) = (c::byte)"
  unfolding and_3_take_bit and_15_take_bit and_63_take_bit
  by (rule bit_word_eqI) (auto simp: bit_simps)

lemma take_bit_6_less_64: "take_bit 6 x = x \<Longrightarrow> unat (x::byte) < 64"
proof -
  assume "take_bit 6 x = x"
  then have "unat x = unat (take_bit 6 x)" by simp
  also have "\<dots> = take_bit 6 (unat x)" by (simp add: unsigned_take_bit_eq)
  also have "\<dots> < 2 ^ 6" by (rule take_bit_nat_less_exp)
  finally show ?thesis by simp
qed

lemma sextet1_less: "unat (drop_bit 2 (a::byte)) < 64"
  by (rule take_bit_6_less_64, rule bit_word_eqI) (auto simp: bit_simps dest: bit_imp_le_length)
lemma sextet2_less: "unat (push_bit 4 (a AND 3) OR drop_bit 4 (b::byte)) < 64"
  unfolding and_3_take_bit by (rule take_bit_6_less_64, rule bit_word_eqI) (auto simp: bit_simps dest: bit_imp_le_length)
lemma sextet3_less: "unat (push_bit 2 (b AND 15) OR drop_bit 6 (c::byte)) < 64"
  unfolding and_15_take_bit by (rule take_bit_6_less_64, rule bit_word_eqI) (auto simp: bit_simps dest: bit_imp_le_length)
lemma sextet4_less: "unat ((c::byte) AND 63) < 64"
  unfolding and_63_take_bit by (rule take_bit_6_less_64) simp
lemma sextet2_pad_less: "unat (push_bit 4 ((a::byte) AND 3)) < 64"
  unfolding and_3_take_bit by (rule take_bit_6_less_64, rule bit_word_eqI) (auto simp: bit_simps dest: bit_imp_le_length)
lemma sextet3_pad_less: "unat (push_bit 2 ((b::byte) AND 15)) < 64"
  unfolding and_15_take_bit by (rule take_bit_6_less_64, rule bit_word_eqI) (auto simp: bit_simps dest: bit_imp_le_length)

lemma sextets_byte1_pad: "push_bit 2 (drop_bit 2 a) OR drop_bit 4 (push_bit 4 (a AND 3)) = (a::byte)"
  unfolding and_3_take_bit 
  by (rule bit_word_eqI) (auto simp: bit_simps Suc_Suc_diff_2)

lemma sextets_byte2_pad: "push_bit 4 ((push_bit 4 (a AND 3) OR drop_bit 4 b) AND 15) OR drop_bit 2 (push_bit 2 (b AND 15)) = (b::byte)"
  unfolding and_3_take_bit and_15_take_bit and_63_take_bit
  by (rule bit_word_eqI) (auto simp: bit_simps)



lemma table_eval:
  "table_b2a_base64 = map of_nat ([65..<91] @ [97..<123] @ [48..<58] @ [43, 47])"
  by (simp add: table_b2a_base64_def bytes_of_def upt_rec_numeral)

lemma table_distinct: "distinct table_b2a_base64"
  unfolding table_eval by (simp add: upt_rec_numeral)

lemma table_notin:
  "45 \<notin> set table_b2a_base64" "95 \<notin> set table_b2a_base64" "61 \<notin> set table_b2a_base64"
  unfolding table_eval by (simp_all add: upt_rec_numeral)

lemma table_length: "length table_b2a_base64 = 64"
  unfolding table_eval by simp

lemma urlsafe_translation_id: "c \<noteq> 45 \<Longrightarrow> c \<noteq> 95 \<Longrightarrow> urlsafe_decode_translation (urlsafe_encode_translation c) = c"
  by (simp add: urlsafe_decode_translation_def urlsafe_encode_translation_def)

lemma index_of_nth: "distinct xs \<Longrightarrow> n < length xs \<Longrightarrow> index_of xs (xs ! n) = Some n"
proof (induction xs arbitrary: n)
  case Nil
  then show ?case by simp
next
  case (Cons x xs)
  then show ?case by (cases n) auto
qed


lemma a2b_tchar:
  assumes "unat s < 64"
  shows "table_a2b_base64 (tchar s) = Some s" and "tchar s \<noteq> BASE64_PAD"
proof -
  let ?c = "table_b2a_base64 ! unat s"
  have mem: "?c \<in> set table_b2a_base64"
    using assms by (simp add: table_length)
  then have ne: "?c \<noteq> 45" "?c \<noteq> 95" "?c \<noteq> 61"
    using table_notin by auto
  then have eq: "tchar s = ?c"
    by (simp add: tchar_def b2a_def urlsafe_translation_id)
  show "table_a2b_base64 (tchar s) = Some s"
    using assms by (simp add: eq table_a2b_base64_def index_of_nth table_distinct table_length)
  show "tchar s \<noteq> BASE64_PAD"
    using ne by (simp add: eq BASE64_PAD_def)
qed

lemma loop_group:
  assumes "unat s1 < 64" "unat s2 < 64" "unat s3 < 64" "unat s4 < 64"
  shows "a2b_base64_loop (tchar s1 # tchar s2 # tchar s3 # tchar s4 # rest) 0 lc p out =
         a2b_base64_loop rest 0 0 0
           (out @ [push_bit 2 s1 OR drop_bit 4 s2, push_bit 4 (s2 AND 15) OR drop_bit 2 s3,
                   push_bit 6 (s3 AND 3) OR s4])"
  using assms by (simp add: a2b_tchar)

lemma loop_pad2:
  assumes "unat s1 < 64" "unat s2 < 64" "unat s3 < 64"
  shows "a2b_base64_loop (tchar s1 # tchar s2 # tchar s3 # BASE64_PAD # rest) 0 lc p out =
         Inr (out @ [push_bit 2 s1 OR drop_bit 4 s2, push_bit 4 (s2 AND 15) OR drop_bit 2 s3])"
  using assms by (simp add: a2b_tchar)

lemma loop_pad1:
  assumes "unat s1 < 64" "unat s2 < 64"
  shows "a2b_base64_loop (tchar s1 # tchar s2 # BASE64_PAD # BASE64_PAD # rest) 0 lc p out =
         Inr (out @ [push_bit 2 s1 OR drop_bit 4 s2])"
  using assms by (simp add: a2b_tchar)

lemma urlsafe_translation_pad: "urlsafe_decode_translation (urlsafe_encode_translation BASE64_PAD) = BASE64_PAD"
  by (simp add: urlsafe_decode_translation_def urlsafe_encode_translation_def BASE64_PAD_def)

lemma map_tr_Cons:
  "map (urlsafe_decode_translation \<circ> urlsafe_encode_translation) (b2a s # cs) =
   tchar s # map (urlsafe_decode_translation \<circ> urlsafe_encode_translation) cs"
  by (simp add: tchar_def)

lemma loop_b2a:
  "a2b_base64_loop (map (urlsafe_decode_translation \<circ> urlsafe_encode_translation) (b2a_base64 xs))
     0 lc p out = Inr (out @ xs)"
proof (induction xs arbitrary: lc p out rule: b2a_base64.induct)
  case (1 a b c rest)
  define s1 where "s1 = drop_bit 2 a"
  define s2 where "s2 = push_bit 4 (a AND 3) OR drop_bit 4 b"
  define s3 where "s3 = push_bit 2 (b AND 15) OR drop_bit 6 c"
  define s4 where "s4 = c AND 63"
  have bnd: "unat s1 < 64" "unat s2 < 64" "unat s3 < 64" "unat s4 < 64"
    unfolding s1_def s2_def s3_def s4_def by (rule sextet1_less sextet2_less sextet3_less sextet4_less)+
  have bytes: "push_bit 2 s1 OR drop_bit 4 s2 = a" "push_bit 4 (s2 AND 15) OR drop_bit 2 s3 = b"
    "push_bit 6 (s3 AND 3) OR s4 = c"
    unfolding s1_def s2_def s3_def s4_def by (rule sextets_byte1 sextets_byte2 sextets_byte3)+
  have enc: "b2a_base64 (a # b # c # rest) = b2a s1 # b2a s2 # b2a s3 # b2a s4 # b2a_base64 rest"
    unfolding s1_def s2_def s3_def s4_def by (simp only: b2a_base64.simps append_Cons append_Nil)
  show ?case
    unfolding enc map_tr_Cons loop_group [OF bnd] bytes 1 [of 0 0 "out @ [a, b, c]"]
    by simp
next
  case (2 a b)
  define s1 where "s1 = drop_bit 2 a"
  define s2 where "s2 = push_bit 4 (a AND 3) OR drop_bit 4 b"
  define s3 where "s3 = push_bit 2 (b AND 15)"
  have bnd: "unat s1 < 64" "unat s2 < 64" "unat s3 < 64"
    unfolding s1_def s2_def s3_def by (rule sextet1_less sextet2_less sextet3_pad_less)+
  have bytes: "push_bit 2 s1 OR drop_bit 4 s2 = a" "push_bit 4 (s2 AND 15) OR drop_bit 2 s3 = b"
    unfolding s1_def s2_def s3_def by (rule sextets_byte1 sextets_byte2_pad)+
  have enc: "b2a_base64 [a, b] = b2a s1 # b2a s2 # b2a s3 # [BASE64_PAD]"
    unfolding s1_def s2_def s3_def by (simp only: b2a_base64.simps)
  have pad: "map (urlsafe_decode_translation \<circ> urlsafe_encode_translation) [BASE64_PAD] = BASE64_PAD # []"
    by (simp add: urlsafe_translation_pad)
  show ?case
    unfolding enc map_tr_Cons pad loop_pad2 [OF bnd] bytes by simp
next
  case (3 a)
  define s1 where "s1 = drop_bit 2 a"
  define s2 where "s2 = push_bit 4 (a AND 3)"
  have bnd: "unat s1 < 64" "unat s2 < 64"
    unfolding s1_def s2_def by (rule sextet1_less sextet2_pad_less)+
  have bytes: "push_bit 2 s1 OR drop_bit 4 s2 = a"
    unfolding s1_def s2_def by (rule sextets_byte1_pad)
  have enc: "b2a_base64 [a] = b2a s1 # b2a s2 # [BASE64_PAD, BASE64_PAD]"
    unfolding s1_def s2_def by (simp only: b2a_base64.simps)
  have pad: "map (urlsafe_decode_translation \<circ> urlsafe_encode_translation) [BASE64_PAD, BASE64_PAD]
      = BASE64_PAD # BASE64_PAD # []"
    by (simp add: urlsafe_translation_pad)
  show ?case
    unfolding enc map_tr_Cons pad loop_pad1 [OF bnd] bytes by simp
next
  case 4
  show ?case by simp
qed

lemma urlsafe_b64_roundtrip: "urlsafe_b64decode (urlsafe_b64encode xs) = Inr xs"
  by (simp add: urlsafe_b64decode_def urlsafe_b64encode_def a2b_base64_def loop_b2a)

section \<open>Fernet: decryption inverts encryption\<close>

lemma xor_bytes_length: "length (xor_bytes xs ys) = min (length xs) (length ys)"
  by (simp add: xor_bytes_def)

lemma xor_bytes_cancel: "length xs = length ys \<Longrightarrow> xor_bytes (xor_bytes xs ys) ys = xs"
proof (induction xs arbitrary: ys)
  case Nil
  then show ?case by (simp add: xor_bytes_def)
next
  case (Cons x xs)
  then obtain y ys' where ys: "ys = y # ys'" by (cases ys) auto
  with Cons have "xor_bytes (xor_bytes xs ys') ys' = xs" by simp
  then show ?case
    by (simp add: ys xor_bytes_def bit.xor_cancel_right xor.assoc)
qed

lemma unat_pad_byte: "n \<le> 16 \<Longrightarrow> unat (of_nat n :: byte) = n"
  by (simp add: unsigned_of_nat take_bit_nat_eq_self)

lemma pkcs7_pad_length: "length (pkcs7_pad d) mod 16 = 0"
  by (simp add: pkcs7_pad_def Let_def) presburger

lemma pkcs7_pad_nonempty: "pkcs7_pad d \<noteq> []"
  by (simp add: pkcs7_pad_def Let_def)

lemma pkcs7_unpad_pad: "pkcs7_unpad (pkcs7_pad d) = Inr d"
proof -
  define n where "n = 16 - length d mod 16"
  have n: "0 < n" "n \<le> 16" by (simp_all add: n_def)
  have pad: "pkcs7_pad d = d @ replicate n (of_nat n)"
    by (simp add: pkcs7_pad_def n_def Let_def)
  have last: "last (pkcs7_pad d) = of_nat n"
    using n by (simp add: pad)
  have un: "unat (of_nat n :: byte) = n"
    using n by (simp add: unat_pad_byte)
  show ?thesis
    unfolding pkcs7_unpad_def
    using n pkcs7_pad_length [of d] pkcs7_pad_nonempty [of d]
    by (simp add: last un Let_def) (simp add: pad)
qed

lemma cbc_encrypt_Nil [simp]: "cbc_encrypt E prev [] = []"
  by (simp add: cbc_encrypt.simps)

lemma cbc_decrypt_Nil [simp]: "cbc_decrypt D prev [] = []"
  by (simp add: cbc_decrypt.simps)

lemma cbc_roundtrip:
  "(\<forall>blk. length blk = 16 \<longrightarrow> length (E blk) = 16 \<and> D (E blk) = blk) \<Longrightarrow>
   length data mod 16 = 0 \<Longrightarrow> length prev = 16 \<Longrightarrow>
     cbc_decrypt D prev (cbc_encrypt E prev data) = data \<and>
     length (cbc_encrypt E prev data) = length data"
proof (induction E prev data rule: cbc_encrypt.induct)
  case (1 E prev data)
  show ?case
  proof (cases "data = []")
    case True
    then show ?thesis by simp
  next
    case False
    then have "0 < length data" by simp
    with 1(3) have len: "16 \<le> length data" by presburger
    define x where "x = xor_bytes (take 16 data) prev"
    define c where "c = E x"
    have lx: "length x = 16" using len 1(4) by (simp add: x_def xor_bytes_length)
    have lc: "length c = 16" and dc: "D c = x" using 1(2) lx by (simp_all add: c_def)
    have rest: "length (drop 16 data) mod 16 = 0"
      using 1(3) len by simp presburger
    have ih: "cbc_decrypt D c (cbc_encrypt E c (drop 16 data)) = drop 16 data \<and>
              length (cbc_encrypt E c (drop 16 data)) = length (drop 16 data)"
      using 1(1) [OF False refl 1(2) rest] lc by (simp add: c_def x_def)
    have enc: "cbc_encrypt E prev data = c @ cbc_encrypt E c (drop 16 data)"
      using False by (subst cbc_encrypt.simps) (simp add: c_def x_def Let_def)
    have first_block: "xor_bytes x prev = take 16 data"
      unfolding x_def using len 1(4) by (simp add: xor_bytes_cancel)
    have "cbc_decrypt D prev (c @ cbc_encrypt E c (drop 16 data)) =
          xor_bytes (D c) prev @ cbc_decrypt D c (cbc_encrypt E c (drop 16 data))"
      using lc by (subst cbc_decrypt.simps) (auto simp add: Let_def)
    then show ?thesis
      using ih lc len by (simp add: enc dc first_block)
  qed
qed

lemma big_endian_length [simp]: "length (big_endian k n) = k"
  by (induction k arbitrary: n) simp_all

lemma Fernet_encrypt_from_parts_eq:
  assumes "t < 2 ^ 64"
  shows "Fernet_encrypt_from_parts b f data t iv =
         Inr (urlsafe_b64encode
               (([0x80] @ big_endian 8 t @ iv @
                 cbc_encrypt (AES_encrypt_block b (encryption_key f)) iv (pkcs7_pad data)) @
                HMAC_SHA256 b (signing_key f)
                  ([0x80] @ big_endian 8 t @ iv @
                   cbc_encrypt (AES_encrypt_block b (encryption_key f)) iv (pkcs7_pad data))))"
  using assms by (simp add: Fernet_encrypt_from_parts_def to_bytes_def Let_def)

lemma Fernet_decrypt_well_formed:
  assumes ok: "backend_ok b" and iv: "length iv = 16" and ts: "length ts = 8"
    and tag: "tag = HMAC_SHA256 b (signing_key f) ([0x80] @ ts @ iv @ ct)"
    and ct: "ct = cbc_encrypt (AES_encrypt_block b (encryption_key f)) iv (pkcs7_pad data)"
    and dec: "urlsafe_b64decode token = Inr (([0x80] @ ts @ iv @ ct) @ tag)"
  shows "Fernet_decrypt b f token = Inr data"
proof -
  let ?E = "AES_encrypt_block b (encryption_key f)"
  let ?D = "AES_decrypt_block b (encryption_key f)"
  let ?basic = "[0x80] @ ts @ iv @ ct"
  have blk: "\<forall>blk. length blk = 16 \<longrightarrow> length (?E blk) = 16 \<and> ?D (?E blk) = blk"
    using ok by (simp add: backend_ok_def)
  have cbc: "cbc_decrypt ?D iv ct = pkcs7_pad data" and lct: "length ct = length (pkcs7_pad data)"
    using cbc_roundtrip [OF blk pkcs7_pad_length iv, of data] by (simp_all add: ct)
  have ltag: "length tag = 32"
    using ok by (simp add: backend_ok_def tag)
  have lbasic: "length ?basic = 25 + length ct"
    using iv ts by simp
  have len: "length (?basic @ tag) - 32 = length ?basic"
    using ltag by simp
  have tk: "take (length (?basic @ tag) - 32) (?basic @ tag) = ?basic"
    unfolding len by simp
  have dr: "drop (length (?basic @ tag) - 32) (?basic @ tag) = tag"
    unfolding len by simp
  have iv': "take 16 (drop 9 (?basic @ tag)) = iv"
    using iv ts by simp
  have ct': "drop 25 ?basic = ct"
    using iv ts by simp
  have tag': "HMAC_SHA256 b (signing_key f) (128 # ts @ iv @ ct) = tag"
    using tag by simp
  show ?thesis
    unfolding Fernet_decrypt_def dec sum.case tk dr Let_def iv' ct'
    using iv ts lct pkcs7_pad_length [of data]
    by (simp add: tag' cbc pkcs7_unpad_pad)
qed

lemma Fernet_roundtrip:
  assumes "backend_ok b" "length iv = 16" "t < 2 ^ 64"
    and "Fernet_encrypt_from_parts b f data t iv = Inr token"
  shows "Fernet_decrypt b f token = Inr data"
proof -
  have tok: "urlsafe_b64decode token =
        Inr (([0x80] @ big_endian 8 t @ iv @
                 cbc_encrypt (AES_encrypt_block b (encryption_key f)) iv (pkcs7_pad data)) @
                HMAC_SHA256 b (signing_key f)
                  ([0x80] @ big_endian 8 t @ iv @
                   cbc_encrypt (AES_encrypt_block b (encryption_key f)) iv (pkcs7_pad data)))"
    using assms(4) unfolding Fernet_encrypt_from_parts_eq [OF assms(3)]
    by (auto simp: urlsafe_b64_roundtrip)
  show ?thesis
    by (rule Fernet_decrypt_well_formed [OF assms(1,2) _ refl refl tok]) simp
qed

section \<open>The shipped key\<close>

lemma shipped_key_encoding:
  "ENCRYPTION_KEY = urlsafe_b64encode (signing_key shipped_fernet @ encryption_key shipped_fernet)"
  by (simp add: ENCRYPTION_KEY_def shipped_fernet_def urlsafe_b64encode_def bytes_of_def b2a_def
      table_eval upt_rec_numeral urlsafe_encode_translation_def BASE64_PAD_def)

lemma Fernet_init_ENCRYPTION_KEY: "Fernet_init ENCRYPTION_KEY = Inr shipped_fernet"
  unfolding Fernet_init_def shipped_key_encoding urlsafe_b64_roundtrip
  by (simp add: shipped_fernet_def)

lemma DECRYPTION_KEY_eq: "DECRYPTION_KEY = ENCRYPTION_KEY"
  by (simp add: DECRYPTION_KEY_def ENCRYPTION_KEY_def)

section \<open>Encrypting a file, then decrypting it\<close>

lemma toy_backend_ok: "backend_ok toy_backend"
  by (simp add: backend_ok_def toy_backend_def xor_bytes_length xor_bytes_cancel)

lemma example_env_ok: "env_ok example_env"
  by (simp add: env_ok_def example_env_def)

lemma encrypt_file_success:
  assumes "files w file_path = Some P" and "Fernet_init K = Inr f"
    and "Fernet_encrypt e b f P = Inr token" and "write_fault e = None"
  shows "encrypt_file K e b file_path output_path w =
         (Inr (case output_path of None \<Rightarrow> file_path @ ''.encrypted'' | Some p \<Rightarrow> p),
          w\<lparr>files := (files w)
                ((case output_path of None \<Rightarrow> file_path @ ''.encrypted'' | Some p \<Rightarrow> p) \<mapsto> token),
             events := events w @ [Print ''File encrypted successfully'']\<rparr>)"
  using assms by (simp add: encrypt_file_def read_file_def write_file_def Let_def)

lemma Fernet_encrypt_total:
  assumes "env_ok e"
  shows "\<exists>token. Fernet_encrypt e b f P = Inr token"
  using assms by (simp add: Fernet_encrypt_def env_ok_def Fernet_encrypt_from_parts_eq)

lemma Fernet_encrypt_decrypt:
  assumes "backend_ok b" and "env_ok e" and "Fernet_encrypt e b f P = Inr token"
  shows "Fernet_decrypt b f token = Inr P"
  using assms Fernet_roundtrip [of b "urandom e 16" "clock e" f P token]
  by (simp add: Fernet_encrypt_def env_ok_def)

lemma decrypt_file_token:
  assumes "files w (encrypted_file_path self) = Some token" and "Fernet_init K = Inr f"
    and "Fernet_decrypt b f token = Inr P"
  shows "decrypt_file K b self w = Inr P"
  using assms by (simp add: decrypt_file_def read_file_def)

lemma init_path [simp]: "encrypted_file_path (CythonRuntimeLoader_init path name) = path"
  by (simp add: CythonRuntimeLoader_init_def Let_def)

lemma encrypt_then_decrypt:
  assumes ok: "backend_ok b" and key: "Fernet_init K = Inr f"
    and src: "files w file_path = Some P" and env: "env_ok e" and wr: "write_fault e = None"
  shows "\<exists>out w'. encrypt_file K e b file_path output_path w = (Inr out, w') \<and>
           out = (case output_path of None \<Rightarrow> file_path @ ''.encrypted'' | Some p \<Rightarrow> p) \<and>
           decrypt_file K b (CythonRuntimeLoader_init out name) w' = Inr P"
proof -
  obtain token where tok: "Fernet_encrypt e b f P = Inr token"
    using Fernet_encrypt_total [OF env] by blast
  have dec: "Fernet_decrypt b f token = Inr P"
    by (rule Fernet_encrypt_decrypt [OF ok env tok])
  define out where "out = (case output_path of None \<Rightarrow> file_path @ ''.encrypted'' | Some p \<Rightarrow> p)"
  define w' where
    "w' = w\<lparr>files := (files w)(out \<mapsto> token),
             events := events w @ [Print ''File encrypted successfully'']\<rparr>"
  have enc: "encrypt_file K e b file_path output_path w = (Inr out, w')"
    unfolding encrypt_file_success [OF src key tok wr] out_def w'_def by simp
  have "decrypt_file K b (CythonRuntimeLoader_init out name) w' = Inr P"
    by (rule decrypt_file_token [OF _ key dec]) (simp add: w'_def)
  with enc show ?thesis
    unfolding out_def by blast
qed

section \<open>Round trip\<close>

text \<open>
  C1. For every payload \<open>P\<close> and every valid key \<open>K\<close> (one from which a Fernet object can
  be constructed), \<open>encrypt_file\<close> on a file holding \<open>P\<close> produces an artifact, and
  \<open>_decrypt_file\<close> on that artifact with the same key returns exactly \<open>P\<close>.
\<close>

theorem C1_encrypt_decrypt_roundtrip:
  assumes "backend_ok b" and "Fernet_init K = Inr f"
    and "files w file_path = Some P" and "env_ok e" and "write_fault e = None"
  shows "\<exists>out w'. encrypt_file K e b file_path output_path w = (Inr out, w') \<and>
           decrypt_file K b (CythonRuntimeLoader_init out name) w' = Inr P"
  using encrypt_then_decrypt [OF assms, of output_path name] by blast

theorem C1_encrypt_decrypt_roundtrip_witness:
  "backend_ok toy_backend \<and> Fernet_init ENCRYPTION_KEY = Inr shipped_fernet \<and>
   files example_world ''build/app.so'' = Some example_payload \<and> env_ok example_env \<and>
   write_fault example_env = None \<and>
   (\<exists>out w'. encrypt_file ENCRYPTION_KEY example_env toy_backend ''build/app.so'' None example_world
        = (Inr out, w') \<and>
      decrypt_file ENCRYPTION_KEY toy_backend (CythonRuntimeLoader_init out None) w'
        = Inr example_payload)"
proof -
  have src: "files example_world ''build/app.so'' = Some example_payload"
    by (simp add: example_world_def)
  have wr: "write_fault example_env = None"
    by (simp add: example_env_def)
  show ?thesis
    using C1_encrypt_decrypt_roundtrip
      [OF toy_backend_ok Fernet_init_ENCRYPTION_KEY src example_env_ok wr, of None None]
      toy_backend_ok Fernet_init_ENCRYPTION_KEY src example_env_ok wr
    by simp
qed

section \<open>Key validation\<close>

lemma Fernet_init_wrong_length:
  assumes "\<forall>k. urlsafe_b64decode key = Inr k \<longrightarrow> length k \<noteq> 32"
  shows "Fernet_init key = Inl (ValueError key_error_message)"
  using assms by (simp add: Fernet_init_def split: sum.splits)

lemma Fernet_init_Inr_iff:
  "(\<exists>f. Fernet_init key = Inr f) \<longleftrightarrow> (\<exists>k. urlsafe_b64decode key = Inr k \<and> length k = 32)"
  by (auto simp add: Fernet_init_def split: sum.splits)

text \<open>
  C9. For every key that does not decode to 32 bytes, constructing the cipher
  (\<open>Fernet(key)\<close>) fails with the constructor's \<open>ValueError\<close> (the specification's
  \<open>InvalidKeyError\<close>). The error arises at construction: \<open>encrypt_file\<close> and
  \<open>_decrypt_file\<close> stop with that error before \<open>fernet.encrypt\<close> or
  \<open>fernet.decrypt\<close> is reached, and \<open>encrypt_file\<close> writes nothing.
\<close>

theorem C9_wrong_key_fails_at_construction:
  assumes "\<forall>k. urlsafe_b64decode key = Inr k \<longrightarrow> length k \<noteq> 32"
    and "files w file_path = Some P"
    and "files w (encrypted_file_path self) = Some A"
  shows "Fernet_init key = Inl (ValueError key_error_message) \<and>
         encrypt_file key e b file_path output_path w = (Inl (ValueError key_error_message), w) \<and>
         decrypt_file key b self w = Inl (ValueError key_error_message)"
  using assms Fernet_init_wrong_length [OF assms(1)]
  by (simp add: encrypt_file_def decrypt_file_def read_file_def)

lemma short_key_decodes: "urlsafe_b64decode (bytes_of ''c2hvcnQ='') = Inr (bytes_of ''short'')"
  by (simp add: urlsafe_b64decode_def bytes_of_def a2b_base64_def urlsafe_decode_translation_def
      BASE64_PAD_def table_a2b_base64_def table_eval upt_rec_numeral)

theorem C9_wrong_key_fails_at_construction_witness:
  "Fernet_init (bytes_of ''c2hvcnQ='') = Inl (ValueError key_error_message) \<and>
   encrypt_file (bytes_of ''c2hvcnQ='') example_env toy_backend ''build/app.so'' None example_world
     = (Inl (ValueError key_error_message), example_world) \<and>
   decrypt_file (bytes_of ''c2hvcnQ='') toy_backend
       (CythonRuntimeLoader_init ''build/app.so'' None) example_world
     = Inl (ValueError key_error_message)"
proof -
  have k: "\<forall>k. urlsafe_b64decode (bytes_of ''c2hvcnQ='') = Inr k \<longrightarrow> length k \<noteq> 32"
    unfolding short_key_decodes by (simp add: bytes_of_def)
  have src: "files example_world ''build/app.so'' = Some example_payload"
    by (simp add: example_world_def)
  have art: "files example_world
      (encrypted_file_path (CythonRuntimeLoader_init ''build/app.so'' None)) = Some example_payload"
    by (simp add: example_world_def)
  show ?thesis
    by (rule C9_wrong_key_fails_at_construction [OF k src art])
qed

section \<open>Nonce freshness\<close>

lemma urlsafe_b64encode_inj: "urlsafe_b64encode xs = urlsafe_b64encode ys \<Longrightarrow> xs = ys"
proof -
  assume "urlsafe_b64encode xs = urlsafe_b64encode ys"
  then have "urlsafe_b64decode (urlsafe_b64encode xs) = urlsafe_b64decode (urlsafe_b64encode ys)"
    by (rule arg_cong)
  then show "xs = ys"
    by (simp add: urlsafe_b64_roundtrip)
qed

lemma big_endian_value:
  "foldl (\<lambda>acc x. acc * 256 + unat x) 0 (big_endian k n) = n mod 256 ^ k"
proof (induction k arbitrary: n)
  case 0
  then show ?case by simp
next
  case (Suc k)
  have byte: "unat (of_nat n :: byte) = n mod 256"
    by (simp add: unsigned_of_nat take_bit_eq_mod)
  have "foldl (\<lambda>acc x. acc * 256 + unat x) 0 (big_endian (Suc k) n) =
        (n div 256 mod 256 ^ k) * 256 + n mod 256"
    by (simp only: big_endian.simps foldl_append foldl.simps Suc byte)
  also have "\<dots> = n mod (256 * 256 ^ k)"
    by (simp only: mod_mult2_eq [of n 256 "256 ^ k"] mult.commute)
  finally show ?case by (simp only: power_Suc)
qed

lemma big_endian_inj:
  assumes "big_endian k m = big_endian k n" and "m < 256 ^ k" and "n < 256 ^ k"
  shows "m = n"
proof -
  have "m mod 256 ^ k = n mod 256 ^ k"
    using big_endian_value [of k m] big_endian_value [of k n] assms(1) by (simp only:)
  then show ?thesis
    using assms(2,3) by (simp only: mod_less)
qed

lemma framed_eq:
  "length ts1 = length ts2 \<Longrightarrow> length iv1 = length iv2 \<Longrightarrow>
   x # ts1 @ iv1 @ r1 = x # ts2 @ iv2 @ r2 \<Longrightarrow> ts1 = ts2 \<and> iv1 = iv2"
  by simp


lemma pow_256_8: "(256::nat) ^ 8 = 2 ^ 64"
  by simp

lemma Fernet_token_fresh:
  assumes t1: "t1 < 2 ^ 64" and t2: "t2 < 2 ^ 64"
    and iv1: "length iv1 = 16" and iv2: "length iv2 = 16"
    and ne: "(t1, iv1) \<noteq> (t2, iv2)"
    and e1: "Fernet_encrypt_from_parts b f P t1 iv1 = Inr tok1"
    and e2: "Fernet_encrypt_from_parts b f P t2 iv2 = Inr tok2"
  shows "tok1 \<noteq> tok2"
proof
  assume eq: "tok1 = tok2"
  define ct1 where "ct1 = cbc_encrypt (AES_encrypt_block b (encryption_key f)) iv1 (pkcs7_pad P)"
  define ct2 where "ct2 = cbc_encrypt (AES_encrypt_block b (encryption_key f)) iv2 (pkcs7_pad P)"
  define tag1 where "tag1 = HMAC_SHA256 b (signing_key f) ([0x80] @ big_endian 8 t1 @ iv1 @ ct1)"
  define tag2 where "tag2 = HMAC_SHA256 b (signing_key f) ([0x80] @ big_endian 8 t2 @ iv2 @ ct2)"
  have tok1: "tok1 = urlsafe_b64encode (([0x80] @ big_endian 8 t1 @ iv1 @ ct1) @ tag1)"
    using e1 unfolding Fernet_encrypt_from_parts_eq [OF t1] ct1_def tag1_def by simp
  have tok2: "tok2 = urlsafe_b64encode (([0x80] @ big_endian 8 t2 @ iv2 @ ct2) @ tag2)"
    using e2 unfolding Fernet_encrypt_from_parts_eq [OF t2] ct2_def tag2_def by simp
  have "([0x80] @ big_endian 8 t1 @ iv1 @ ct1) @ tag1 = ([0x80] @ big_endian 8 t2 @ iv2 @ ct2) @ tag2"
    using eq unfolding tok1 tok2 by (rule urlsafe_b64encode_inj)
  then have "0x80 # big_endian 8 t1 @ iv1 @ (ct1 @ tag1) = 0x80 # big_endian 8 t2 @ iv2 @ (ct2 @ tag2)"
    by simp
  then have "big_endian 8 t1 = big_endian 8 t2 \<and> iv1 = iv2"
    by (rule framed_eq [rotated 2]) (simp_all add: iv1 iv2)
  then have "t1 = t2" and "iv1 = iv2"
    using big_endian_inj [of 8 t1 t2] t1 t2 by (simp_all only: pow_256_8)
  with ne show False by simp
qed

text \<open>
  C6. For every valid key and payload, two calls of \<open>encrypt_file\<close> whose nonce
  components (timestamp and IV, as the clock and \<open>os.urandom\<close> deliver them) are not
  both the same produce different artifacts, and each artifact decrypts back to the
  payload under the same key.
\<close>

theorem C6_fresh_nonce_distinct_artifacts:
  assumes "backend_ok b" and "Fernet_init K = Inr f" and "files w file_path = Some P"
    and "env_ok e1" and "env_ok e2" and "write_fault e1 = None" and "write_fault e2 = None"
    and "(clock e1, urandom e1 16) \<noteq> (clock e2, urandom e2 16)"
  shows "\<exists>out w1 w2.
           encrypt_file K e1 b file_path output_path w = (Inr out, w1) \<and>
           encrypt_file K e2 b file_path output_path w = (Inr out, w2) \<and>
           files w1 out \<noteq> files w2 out \<and>
           decrypt_file K b (CythonRuntimeLoader_init out name) w1 = Inr P \<and>
           decrypt_file K b (CythonRuntimeLoader_init out name) w2 = Inr P"
proof -
  obtain tok1 where tok1: "Fernet_encrypt e1 b f P = Inr tok1"
    using Fernet_encrypt_total [OF assms(4)] by blast
  obtain tok2 where tok2: "Fernet_encrypt e2 b f P = Inr tok2"
    using Fernet_encrypt_total [OF assms(5)] by blast
  define out where "out = (case output_path of None \<Rightarrow> file_path @ ''.encrypted'' | Some p \<Rightarrow> p)"
  define w1 where
    "w1 = w\<lparr>files := (files w)(out \<mapsto> tok1),
             events := events w @ [Print ''File encrypted successfully'']\<rparr>"
  define w2 where
    "w2 = w\<lparr>files := (files w)(out \<mapsto> tok2),
             events := events w @ [Print ''File encrypted successfully'']\<rparr>"
  have enc1: "encrypt_file K e1 b file_path output_path w = (Inr out, w1)"
    unfolding encrypt_file_success [OF assms(3,2) tok1 assms(6)] out_def w1_def by simp
  have enc2: "encrypt_file K e2 b file_path output_path w = (Inr out, w2)"
    unfolding encrypt_file_success [OF assms(3,2) tok2 assms(7)] out_def w2_def by simp
  have "tok1 \<noteq> tok2"
    using Fernet_token_fresh [of "clock e1" "clock e2" "urandom e1 16" "urandom e2 16" b f P tok1 tok2]
      assms(4,5,8) tok1 tok2
    by (simp add: env_ok_def Fernet_encrypt_def)
  then have diff: "files w1 out \<noteq> files w2 out"
    by (simp add: w1_def w2_def)
  have d1: "decrypt_file K b (CythonRuntimeLoader_init out name) w1 = Inr P"
    by (rule decrypt_file_token [OF _ assms(2) Fernet_encrypt_decrypt [OF assms(1,4) tok1]])
       (simp add: w1_def)
  have d2: "decrypt_file K b (CythonRuntimeLoader_init out name) w2 = Inr P"
    by (rule decrypt_file_token [OF _ assms(2) Fernet_encrypt_decrypt [OF assms(1,5) tok2]])
       (simp add: w2_def)
  from enc1 enc2 diff d1 d2 show ?thesis by blast
qed

theorem C6_fresh_nonce_distinct_artifacts_witness:
  "(clock example_env, urandom example_env 16)
      \<noteq> (clock (example_env\<lparr>clock := 1700000001\<rparr>), urandom (example_env\<lparr>clock := 1700000001\<rparr>) 16) \<and>
   (\<exists>out w1 w2.
      encrypt_file ENCRYPTION_KEY example_env toy_backend ''build/app.so'' None example_world
        = (Inr out, w1) \<and>
      encrypt_file ENCRYPTION_KEY (example_env\<lparr>clock := 1700000001\<rparr>) toy_backend
          ''build/app.so'' None example_world = (Inr out, w2) \<and>
      files w1 out \<noteq> files w2 out \<and>
      decrypt_file ENCRYPTION_KEY toy_backend (CythonRuntimeLoader_init out None) w1
        = Inr example_payload \<and>
      decrypt_file ENCRYPTION_KEY toy_backend (CythonRuntimeLoader_init out None) w2
        = Inr example_payload)"
proof -
  have src: "files example_world ''build/app.so'' = Some example_payload"
    by (simp add: example_world_def)
  have e2: "env_ok (example_env\<lparr>clock := 1700000001\<rparr>)"
    by (simp add: env_ok_def example_env_def)
  have wr: "write_fault example_env = None" "write_fault (example_env\<lparr>clock := 1700000001\<rparr>) = None"
    by (simp_all add: example_env_def)
  have ne: "(clock example_env, urandom example_env 16)
      \<noteq> (clock (example_env\<lparr>clock := 1700000001\<rparr>), urandom (example_env\<lparr>clock := 1700000001\<rparr>) 16)"
    by (simp add: example_env_def)
  show ?thesis
    using C6_fresh_nonce_distinct_artifacts
      [OF toy_backend_ok Fernet_init_ENCRYPTION_KEY src example_env_ok e2 wr ne, of None None] ne
    by blast
qed

section \<open>The runs of \<open>load_and_run\<close>\<close>

lemma NamedTemporaryFile_cases:
  "NamedTemporaryFile e sfx w = (Inl FileExistsError, w) \<or>
   (\<exists>p. files w p = None \<and>
        find (\<lambda>p. files w p = None) (map (\<lambda>n. tmp_dir e @ ''/tmp'' @ n @ sfx) (tmp_names e)) = Some p \<and>
        NamedTemporaryFile e sfx w = (Inr p, w\<lparr>files := (files w)(p \<mapsto> [])\<rparr>))"
  by (auto simp: NamedTemporaryFile_def find_Some_iff split: option.splits)

lemma load_staged_frame:
  "files (snd (load_staged e self tmp w)) = files w \<and>
   unlink_calls (snd (load_staged e self tmp w)) = unlink_calls w"
  by (simp add: load_staged_def module_from_spec_def exec_module_def unlink_calls_def Let_def
      split: option.splits sum.splits prod.splits)

lemma load_staged_Inr:
  assumes "load_staged e self tmp w = (Inr m, w')" and "files w tmp = Some P"
  shows "m = length (module_objs w) \<and>
         w' = w\<lparr>module_objs := module_objs w @
                   [\<lparr>m_name = Some ''__main__'', m_origin = tmp, m_image = P,
                     m_initialised = True\<rparr>],
                 sys_modules := (sys_modules w)(module_name self \<mapsto> length (module_objs w)),
                 events := events w @
                   (if multi_phase e
                    then [Exec (length (module_objs w)) (Some (module_name self)),
                          Run (length (module_objs w)) (Some (module_name self)),
                          Exec (length (module_objs w)) (Some ''__main__'')]
                    else [Run (length (module_objs w)) (Some (module_name self)),
                          Exec (length (module_objs w)) (Some (module_name self)),
                          Exec (length (module_objs w)) (Some ''__main__'')])\<rparr>"
  using assms
  by (auto simp: load_staged_def spec_from_file_location_def module_from_spec_def exec_module_def
      Let_def split: option.splits sum.splits prod.splits if_splits)

lemma load_staged_success:
  assumes "files w tmp = Some P"
    and "list_ex (\<lambda>s. endswith tmp s) (loader_suffixes e)"
    and "create_fault e = None"
    and "exec_outcome e (Some (module_name self)) = None"
  shows "load_staged e self tmp w =
         (Inr (length (module_objs w)),
          w\<lparr>module_objs := module_objs w @
                   [\<lparr>m_name = Some ''__main__'', m_origin = tmp, m_image = P,
                     m_initialised = True\<rparr>],
                 sys_modules := (sys_modules w)(module_name self \<mapsto> length (module_objs w)),
                 events := events w @
                   (if multi_phase e
                    then [Exec (length (module_objs w)) (Some (module_name self)),
                          Run (length (module_objs w)) (Some (module_name self)),
                          Exec (length (module_objs w)) (Some ''__main__'')]
                    else [Run (length (module_objs w)) (Some (module_name self)),
                          Exec (length (module_objs w)) (Some (module_name self)),
                          Exec (length (module_objs w)) (Some ''__main__'')])\<rparr>)"
  using assms
  by (simp add: load_staged_def spec_from_file_location_def module_from_spec_def exec_module_def
      Let_def)

text \<open>Once the payload is staged, the body is the load followed by the unlink.\<close>

lemma load_and_run_body_staged:
  assumes dec: "decrypt_file K b self w = Inr P"
    and tmp: "find (\<lambda>p. files w p = None)
                (map (\<lambda>n. tmp_dir e @ ''/tmp'' @ n @ get_extension_suffix e) (tmp_names e)) = Some tmp"
    and wr: "write_fault e = None"
  shows "load_and_run_body K e b self w =
         (fst (load_staged e self tmp (w\<lparr>files := (files w)(tmp \<mapsto> P)\<rparr>)),
          snd (os_unlink e tmp (snd (load_staged e self tmp (w\<lparr>files := (files w)(tmp \<mapsto> P)\<rparr>)))))"
  using assms
  by (simp add: load_and_run_body_def NamedTemporaryFile_def write_file_def split: prod.splits)

lemma load_and_run_body_Inr:
  assumes "load_and_run_body K e b self w = (Inr m, w')"
  shows "\<exists>P tmp. decrypt_file K b self w = Inr P \<and> files w tmp = None \<and>
           find (\<lambda>p. files w p = None)
             (map (\<lambda>n. tmp_dir e @ ''/tmp'' @ n @ get_extension_suffix e) (tmp_names e)) = Some tmp \<and>
           write_fault e = None \<and>
           m = length (module_objs w) \<and>
           w' = snd (os_unlink e tmp (loaded_world self tmp P (multi_phase e) w))"
proof -
  from assms obtain P where dec: "decrypt_file K b self w = Inr P"
    by (auto simp: load_and_run_body_def split: sum.splits)
  from assms dec obtain tmp where tmp: "files w tmp = None"
      "find (\<lambda>p. files w p = None)
         (map (\<lambda>n. tmp_dir e @ ''/tmp'' @ n @ get_extension_suffix e) (tmp_names e)) = Some tmp"
    using NamedTemporaryFile_cases [of e "get_extension_suffix e" w]
    by (auto simp: load_and_run_body_def split: sum.splits prod.splits)
  from assms dec tmp have wr: "write_fault e = None"
    by (auto simp: load_and_run_body_def NamedTemporaryFile_def write_file_def
        split: sum.splits prod.splits option.splits)
  define w2 where "w2 = w\<lparr>files := (files w)(tmp \<mapsto> P)\<rparr>"
  obtain r w3 where ls: "load_staged e self tmp w2 = (r, w3)"
    by (cases "load_staged e self tmp w2")
  have body: "load_and_run_body K e b self w = (r, snd (os_unlink e tmp w3))"
    using load_and_run_body_staged [OF dec tmp(2) wr] ls by (simp add: w2_def)
  with assms have r: "r = Inr m" and w': "w' = snd (os_unlink e tmp w3)"
    by simp_all
  have "m = length (module_objs w2) \<and> w3 = loaded_world self tmp P (multi_phase e) w"
    using load_staged_Inr [OF ls [unfolded r], of P] by (simp add: w2_def loaded_world_def)
  then show ?thesis
    using dec tmp wr w' by (auto simp: w2_def)
qed

lemma load_and_run_Inr:
  assumes "load_and_run K e b self w = (Inr m, w')"
  shows "\<exists>P tmp. decrypt_file K b self w = Inr P \<and> files w tmp = None \<and>
           find (\<lambda>p. files w p = None)
             (map (\<lambda>n. tmp_dir e @ ''/tmp'' @ n @ get_extension_suffix e) (tmp_names e)) = Some tmp \<and>
           write_fault e = None \<and>
           m = length (module_objs w) \<and>
           w' = snd (os_unlink e tmp (loaded_world self tmp P (multi_phase e) w))"
proof -
  from assms have "load_and_run_body K e b self w = (Inr m, w')"
    by (auto simp: load_and_run_def split: sum.splits prod.splits if_splits)
  then show ?thesis by (rule load_and_run_body_Inr)
qed

lemma load_and_run_success:
  assumes dec: "decrypt_file K b self w = Inr P"
    and tmp: "find (\<lambda>p. files w p = None)
                (map (\<lambda>n. tmp_dir e @ ''/tmp'' @ n @ get_extension_suffix e) (tmp_names e)) = Some tmp"
    and wr: "write_fault e = None"
    and sfx: "list_ex (\<lambda>s. endswith tmp s) (loader_suffixes e)"
    and cr: "create_fault e = None"
    and x1: "exec_outcome e (Some (module_name self)) = None"
  shows "load_and_run K e b self w =
         (Inr (length (module_objs w)), snd (os_unlink e tmp (loaded_world self tmp P (multi_phase e) w)))"
proof -
  have "load_staged e self tmp (w\<lparr>files := (files w)(tmp \<mapsto> P)\<rparr>) =
        (Inr (length (module_objs w)), loaded_world self tmp P (multi_phase e) w)"
    using load_staged_success [of "w\<lparr>files := (files w)(tmp \<mapsto> P)\<rparr>" tmp P e self, OF _ sfx cr x1]
    by (simp add: loaded_world_def)
  then show ?thesis
    using load_and_run_body_staged [OF dec tmp wr] by (simp add: load_and_run_def)
qed

lemma os_unlink_loaded_world:
  assumes "files w tmp = None"
  shows "files (snd (os_unlink e tmp (loaded_world self tmp P mp w))) =
           (if unlink_ok e then files w else (files w)(tmp \<mapsto> P))"
    and "events (snd (os_unlink e tmp (loaded_world self tmp P mp w))) =
           events w @
             (if mp
              then [Exec (length (module_objs w)) (Some (module_name self)),
                    Run (length (module_objs w)) (Some (module_name self)),
                    Exec (length (module_objs w)) (Some ''__main__'')]
              else [Run (length (module_objs w)) (Some (module_name self)),
                    Exec (length (module_objs w)) (Some (module_name self)),
                    Exec (length (module_objs w)) (Some ''__main__'')]) @
             [Unlink tmp (unlink_ok e)]"
    and "sys_modules (snd (os_unlink e tmp (loaded_world self tmp P mp w))) =
           (sys_modules w)(module_name self \<mapsto> length (module_objs w))"
    and "module_objs (snd (os_unlink e tmp (loaded_world self tmp P mp w))) =
           module_objs w @
             [\<lparr>m_name = Some ''__main__'', m_origin = tmp, m_image = P, m_initialised = True\<rparr>]"
  using assms by (auto simp: os_unlink_def loaded_world_def)

section \<open>The example run\<close>

lemma example_artifact_decrypts:
  "Fernet_decrypt toy_backend shipped_fernet example_artifact = Inr example_payload"
proof -
  obtain token where tok: "Fernet_encrypt example_env toy_backend shipped_fernet example_payload = Inr token"
    using Fernet_encrypt_total [OF example_env_ok] by blast
  then have "example_artifact = token"
    by (simp add: example_artifact_def)
  then show ?thesis
    using Fernet_encrypt_decrypt [OF toy_backend_ok example_env_ok tok] by simp
qed

lemma Fernet_init_DECRYPTION_KEY: "Fernet_init DECRYPTION_KEY = Inr shipped_fernet"
  by (simp only: DECRYPTION_KEY_eq Fernet_init_ENCRYPTION_KEY)

lemma deployed_decrypt_file:
  "decrypt_file DECRYPTION_KEY toy_backend (CythonRuntimeLoader_init ''app.encrypted'' name)
     deployed_world = Inr example_payload"
  by (rule decrypt_file_token [OF _ Fernet_init_DECRYPTION_KEY example_artifact_decrypts])
     (simp add: deployed_world_def)

lemma example_module_name:
  "module_name (CythonRuntimeLoader_init ''app.encrypted'' None) = ''app''"
  by (simp add: CythonRuntimeLoader_init_def os_path_basename_def os_path_splitext_def rfind_def
      splitext_loop.simps endswith_def suffix_to_prefix Let_def)

lemma example_tmp:
  "find (\<lambda>p. files deployed_world p = None)
     (map (\<lambda>n. tmp_dir (example_env\<lparr>unlink_ok := u\<rparr>) @ ''/tmp'' @ n
               @ get_extension_suffix (example_env\<lparr>unlink_ok := u\<rparr>))
        (tmp_names (example_env\<lparr>unlink_ok := u\<rparr>))) = Some ''/tmp/tmpabc123.so''"
  by (simp add: example_env_def deployed_world_def get_extension_suffix_def)

lemma example_run:
  "load_and_run DECRYPTION_KEY (example_env\<lparr>unlink_ok := u\<rparr>) toy_backend
     (CythonRuntimeLoader_init ''app.encrypted'' None) deployed_world =
   (Inr 0,
    \<lparr>files = (if u then [''app.encrypted'' \<mapsto> example_artifact]
              else [''app.encrypted'' \<mapsto> example_artifact, ''/tmp/tmpabc123.so'' \<mapsto> example_payload]),
     module_objs = [\<lparr>m_name = Some ''__main__'', m_origin = ''/tmp/tmpabc123.so'',
                     m_image = example_payload, m_initialised = True\<rparr>],
     sys_modules = [''app'' \<mapsto> 0],
     events = [Exec 0 (Some ''app''), Run 0 (Some ''app''), Exec 0 (Some ''__main__''),
               Unlink ''/tmp/tmpabc123.so'' u]\<rparr>)"
proof -
  have sfx: "list_ex (\<lambda>s. endswith ''/tmp/tmpabc123.so'' s) (loader_suffixes (example_env\<lparr>unlink_ok := u\<rparr>))"
    by (simp add: example_env_def endswith_def suffix_to_prefix)
  have mp: "multi_phase (example_env\<lparr>unlink_ok := u\<rparr>) = True"
    by (simp add: example_env_def)
  have run: "load_and_run DECRYPTION_KEY (example_env\<lparr>unlink_ok := u\<rparr>) toy_backend
     (CythonRuntimeLoader_init ''app.encrypted'' None) deployed_world =
     (Inr (length (module_objs deployed_world)),
      snd (os_unlink (example_env\<lparr>unlink_ok := u\<rparr>) ''/tmp/tmpabc123.so''
        (loaded_world (CythonRuntimeLoader_init ''app.encrypted'' None) ''/tmp/tmpabc123.so''
           example_payload (multi_phase (example_env\<lparr>unlink_ok := u\<rparr>)) deployed_world)))"
    by (rule load_and_run_success [OF deployed_decrypt_file example_tmp _ sfx])
       (simp_all add: example_env_def)
  show ?thesis
    unfolding run mp
    by (simp add: os_unlink_def loaded_world_def example_module_name deployed_world_def
        example_env_def)
qed

section \<open>How often the payload is executed\<close>



section \<open>Registration in \<open>sys.modules\<close>\<close>



section \<open>The staging file\<close>

lemma load_and_run_frame:
  "files (snd (load_and_run K e b self w)) = files (snd (load_and_run_body K e b self w)) \<and>
   unlink_calls (snd (load_and_run K e b self w)) = unlink_calls (snd (load_and_run_body K e b self w))"
  by (simp add: load_and_run_def unlink_calls_def split: prod.splits sum.splits)

lemma load_and_run_decrypt_fails:
  assumes "decrypt_file K b self w = Inl x"
  shows "files (snd (load_and_run K e b self w)) = files w"
    and "unlink_calls (snd (load_and_run K e b self w)) = unlink_calls w"
  using assms by (simp_all add: load_and_run_frame load_and_run_body_def)

lemma load_and_run_staged:
  assumes dec: "decrypt_file K b self w = Inr P"
    and tmp: "find (\<lambda>p. files w p = None)
                (map (\<lambda>n. tmp_dir e @ ''/tmp'' @ n @ get_extension_suffix e) (tmp_names e)) = Some tmp"
    and wr: "write_fault e = None"
  shows "unlink_calls (snd (load_and_run K e b self w)) = unlink_calls w @ [Unlink tmp (unlink_ok e)]"
    and "files (snd (load_and_run K e b self w)) =
           (if unlink_ok e then files w else (files w)(tmp \<mapsto> P))"
proof -
  have fresh: "files w tmp = None"
    using tmp by (auto simp: find_Some_iff)
  define w3 where "w3 = snd (load_staged e self tmp (w\<lparr>files := (files w)(tmp \<mapsto> P)\<rparr>))"
  have fr: "files w3 = (files w)(tmp \<mapsto> P)" "unlink_calls w3 = unlink_calls w"
    using load_staged_frame [of e self tmp "w\<lparr>files := (files w)(tmp \<mapsto> P)\<rparr>"]
    by (simp_all add: w3_def unlink_calls_def)
  have body: "snd (load_and_run_body K e b self w) = snd (os_unlink e tmp w3)"
    using load_and_run_body_staged [OF dec tmp wr] by (simp add: w3_def)
  have "unlink_calls (snd (load_and_run K e b self w)) = unlink_calls (snd (os_unlink e tmp w3))"
    by (simp only: load_and_run_frame body)
  also have "\<dots> = unlink_calls w3 @ [Unlink tmp (unlink_ok e)]"
    using fr(1) by (simp add: os_unlink_def unlink_calls_def)
  finally show "unlink_calls (snd (load_and_run K e b self w)) =
      unlink_calls w @ [Unlink tmp (unlink_ok e)]"
    by (simp only: fr(2))
  have "files (snd (load_and_run K e b self w)) = files (snd (os_unlink e tmp w3))"
    by (simp only: load_and_run_frame body)
  also have "\<dots> = (if unlink_ok e then files w else (files w)(tmp \<mapsto> P))"
    using fr(1) fresh by (auto simp add: os_unlink_def)
  finally show "files (snd (load_and_run K e b self w)) =
           (if unlink_ok e then files w else (files w)(tmp \<mapsto> P))" .
qed

text \<open>
  C8 (as the code has it). After a run of \<open>load_and_run\<close> that returns the module and
  whose \<open>os.unlink\<close> call succeeds, the staging file is gone and the file system is as
  before the run. After a failed decrypt no file is created and \<open>os.unlink\<close> is not
  called. Once the payload is staged, every outcome of loading and executing it
  (return, exception or \<open>SystemExit\<close>) is followed by exactly one \<open>os.unlink\<close> call
  on the staging file; when that call fails, the failure is swallowed and the staging
  file stays.
\<close>

theorem C8_staging_cleanup:
  "(load_and_run K e b self w = (Inr m, w') \<and> unlink_ok e \<longrightarrow> files w' = files w) \<and>
   (decrypt_file K b self w = Inl x \<longrightarrow>
      files (snd (load_and_run K e b self w)) = files w \<and>
      unlink_calls (snd (load_and_run K e b self w)) = unlink_calls w) \<and>
   (decrypt_file K b self w = Inr P \<and>
    find (\<lambda>p. files w p = None)
      (map (\<lambda>n. tmp_dir e @ ''/tmp'' @ n @ get_extension_suffix e) (tmp_names e)) = Some tmp \<and>
    write_fault e = None \<longrightarrow>
      unlink_calls (snd (load_and_run K e b self w)) = unlink_calls w @ [Unlink tmp (unlink_ok e)] \<and>
      files (snd (load_and_run K e b self w)) =
        (if unlink_ok e then files w else (files w)(tmp \<mapsto> P)))"
proof (intro conjI impI)
  assume a: "load_and_run K e b self w = (Inr m, w') \<and> unlink_ok e"
  then obtain P tmp where "files w tmp = None"
    and "w' = snd (os_unlink e tmp (loaded_world self tmp P (multi_phase e) w))"
    using load_and_run_Inr [of K e b self w m w'] by blast
  then show "files w' = files w"
    using a os_unlink_loaded_world(1) [of w tmp e self P "multi_phase e"] by simp
next
  assume "decrypt_file K b self w = Inl x"
  then show "files (snd (load_and_run K e b self w)) = files w"
    by (rule load_and_run_decrypt_fails)
next
  assume "decrypt_file K b self w = Inl x"
  then show "unlink_calls (snd (load_and_run K e b self w)) = unlink_calls w"
    by (rule load_and_run_decrypt_fails)
next
  assume "decrypt_file K b self w = Inr P \<and>
    find (\<lambda>p. files w p = None)
      (map (\<lambda>n. tmp_dir e @ ''/tmp'' @ n @ get_extension_suffix e) (tmp_names e)) = Some tmp \<and>
    write_fault e = None"
  then show "unlink_calls (snd (load_and_run K e b self w)) = unlink_calls w @ [Unlink tmp (unlink_ok e)]"
    using load_and_run_staged(1) [of K b self w P e tmp] by simp
next
  assume "decrypt_file K b self w = Inr P \<and>
    find (\<lambda>p. files w p = None)
      (map (\<lambda>n. tmp_dir e @ ''/tmp'' @ n @ get_extension_suffix e) (tmp_names e)) = Some tmp \<and>
    write_fault e = None"
  then show "files (snd (load_and_run K e b self w)) =
        (if unlink_ok e then files w else (files w)(tmp \<mapsto> P))"
    using load_and_run_staged(2) [of K b self w P e tmp] by simp
qed

lemma garbage_not_base64: "urlsafe_b64decode (bytes_of ''garbage'') = Inl Incorrect_padding"
  by (simp add: urlsafe_b64decode_def bytes_of_def a2b_base64_def urlsafe_decode_translation_def
      BASE64_PAD_def table_a2b_base64_def table_eval upt_rec_numeral)

lemma corrupt_decrypt_file:
  "decrypt_file DECRYPTION_KEY b (CythonRuntimeLoader_init ''app.encrypted'' name) corrupt_world
     = Inl (ValueError decrypt_error_message)"
  by (simp add: decrypt_file_def read_file_def corrupt_world_def Fernet_init_DECRYPTION_KEY
      Fernet_decrypt_def garbage_not_base64)

theorem C8_staging_cleanup_witness:
  "files (snd (load_and_run DECRYPTION_KEY (example_env\<lparr>unlink_ok := True\<rparr>) toy_backend
       (CythonRuntimeLoader_init ''app.encrypted'' None) deployed_world)) = files deployed_world \<and>
   unlink_calls (snd (load_and_run DECRYPTION_KEY (example_env\<lparr>unlink_ok := True\<rparr>) toy_backend
       (CythonRuntimeLoader_init ''app.encrypted'' None) deployed_world))
     = unlink_calls deployed_world @ [Unlink ''/tmp/tmpabc123.so'' True] \<and>
   files (snd (load_and_run DECRYPTION_KEY (example_env\<lparr>unlink_ok := True\<rparr>) toy_backend
       (CythonRuntimeLoader_init ''app.encrypted'' None) corrupt_world)) = files corrupt_world \<and>
   unlink_calls (snd (load_and_run DECRYPTION_KEY (example_env\<lparr>unlink_ok := True\<rparr>) toy_backend
       (CythonRuntimeLoader_init ''app.encrypted'' None) corrupt_world)) = unlink_calls corrupt_world"
proof -
  let ?e = "example_env\<lparr>unlink_ok := True\<rparr>"
  let ?self = "CythonRuntimeLoader_init ''app.encrypted'' None"
  let ?r = "load_and_run DECRYPTION_KEY ?e toy_backend ?self deployed_world"
  let ?c = "load_and_run DECRYPTION_KEY ?e toy_backend ?self corrupt_world"
  have ok: "unlink_ok ?e" and wr: "write_fault ?e = None"
    by (simp_all add: example_env_def)
  note good = C8_staging_cleanup
        [of DECRYPTION_KEY ?e toy_backend ?self deployed_world 0 "snd ?r"
            "ValueError decrypt_error_message" example_payload "''/tmp/tmpabc123.so''"]
  note bad = C8_staging_cleanup
        [of DECRYPTION_KEY ?e toy_backend ?self corrupt_world 0 "snd ?c"
            "ValueError decrypt_error_message" example_payload "''/tmp/tmpabc123.so''"]
  have "?r = (Inr 0, snd ?r) \<and> unlink_ok ?e"
    using ok by (simp add: example_run)
  from good [THEN conjunct1, THEN mp, OF this]
  have a: "files (snd ?r) = files deployed_world" .
  have "decrypt_file DECRYPTION_KEY toy_backend ?self deployed_world = Inr example_payload \<and>
    find (\<lambda>p. files deployed_world p = None)
      (map (\<lambda>n. tmp_dir ?e @ ''/tmp'' @ n @ get_extension_suffix ?e) (tmp_names ?e))
      = Some ''/tmp/tmpabc123.so'' \<and> write_fault ?e = None"
    using deployed_decrypt_file [of None] example_tmp [of True] wr by blast
  from good [THEN conjunct2, THEN conjunct2, THEN mp, OF this]
  have b: "unlink_calls (snd ?r) = unlink_calls deployed_world @ [Unlink ''/tmp/tmpabc123.so'' True]"
    using ok by simp
  from bad [THEN conjunct2, THEN conjunct1, THEN mp, OF corrupt_decrypt_file]
  have c: "files (snd ?c) = files corrupt_world \<and> unlink_calls (snd ?c) = unlink_calls corrupt_world" .
  from a b c show ?thesis by blast
qed

text \<open>
  The first part of the claim as stated fails where \<open>os.unlink\<close> fails (as it does on
  Windows for a loaded \<open>.pyd\<close>): the run returns the module and the staging file,
  holding the decrypted payload, is still there.
\<close>

theorem C8_counterexample:
  "fst (load_and_run DECRYPTION_KEY (example_env\<lparr>unlink_ok := False\<rparr>) toy_backend
       (CythonRuntimeLoader_init ''app.encrypted'' None) deployed_world) = Inr 0 \<and>
   files deployed_world ''/tmp/tmpabc123.so'' = None \<and>
   files (snd (load_and_run DECRYPTION_KEY (example_env\<lparr>unlink_ok := False\<rparr>) toy_backend
       (CythonRuntimeLoader_init ''app.encrypted'' None) deployed_world)) ''/tmp/tmpabc123.so''
     = Some example_payload"
  unfolding example_run by (simp add: deployed_world_def)

text \<open>
  A failure while the payload is being written to the staging file is not covered by the
  \<open>finally\<close> clause: the partly written file stays and \<open>os.unlink\<close> is not called.
\<close>

lemma staging_write_fault_no_cleanup:
  assumes dec: "decrypt_file K b self w = Inr P"
    and tmp: "find (\<lambda>p. files w p = None)
                (map (\<lambda>n. tmp_dir e @ ''/tmp'' @ n @ get_extension_suffix e) (tmp_names e)) = Some tmp"
    and wr: "write_fault e = Some n"
  shows "fst (load_and_run K e b self w) = Inl (SystemExit 1) \<and>
         files (snd (load_and_run K e b self w)) = (files w)(tmp \<mapsto> take n P) \<and>
         unlink_calls (snd (load_and_run K e b self w)) = unlink_calls w"
  using assms
  by (simp add: load_and_run_def load_and_run_body_def NamedTemporaryFile_def write_file_def
      unlink_calls_def)

section \<open>Exit status\<close>

lemma Fernet_decrypt_Inl_is_Exception:
  "Fernet_decrypt b f token = Inl x \<Longrightarrow> is_Exception x"
  by (auto simp: Fernet_decrypt_def Let_def split: sum.splits if_splits)

lemma decrypt_file_Inl_is_Exception:
  "decrypt_file K b self w = Inl x \<Longrightarrow> is_Exception x"
  by (auto simp: decrypt_file_def read_file_def Fernet_init_def
      dest: Fernet_decrypt_Inl_is_Exception split: sum.splits option.splits if_splits)

lemma load_and_run_body_decrypt_fails:
  "decrypt_file K b self w = Inl x \<Longrightarrow> load_and_run_body K e b self w = (Inl x, w)"
  by (simp add: load_and_run_body_def)

lemma main_exit_status:
  "exit_status (fst (main e b [prog, path] w)) =
     (if \<not> os_path_exists w path then 1
      else case fst (load_and_run_body DECRYPTION_KEY e b (CythonRuntimeLoader_init path None) w) of
             Inr m \<Rightarrow> 0
           | Inl x \<Rightarrow> if is_Exception x then 1 else exit_status (Inl x :: exn + unit))"
  by (auto simp: main_def load_and_run_def Let_def split: prod.splits sum.splits)

lemma app_launcher_exit_status:
  "exit_status (fst (app_launcher_main e b w)) =
     (if \<not> os_path_exists w ENCRYPTED_APP_NAME then 1
      else case fst (load_and_run_body DECRYPTION_KEY e b
                      (CythonRuntimeLoader_init ENCRYPTED_APP_NAME None) w) of
             Inr m \<Rightarrow> 0
           | Inl x \<Rightarrow> if is_Exception x then 1 else exit_status (Inl x :: exn + unit))"
  by (auto simp: app_launcher_main_def load_and_run_def Let_def split: prod.splits sum.splits)

text \<open>
  C3 (as the code has it). The run command (\<open>main\<close> of \<open>runtime_loader.py\<close>) ends
  with exit status 0 when \<open>load_and_run\<close> returns the module, and with exit status 1
  in every failure class: the artifact file is missing, decryption fails, or staging,
  loading or executing the payload raises an \<open>Exception\<close>. The failure classes are
  not told apart by the exit status.
\<close>

theorem C3_exit_status_zero_or_one:
  "(\<not> os_path_exists w path \<longrightarrow> exit_status (fst (main e b [prog, path] w)) = 1) \<and>
   (os_path_exists w path \<and>
    decrypt_file DECRYPTION_KEY b (CythonRuntimeLoader_init path None) w = Inl x \<longrightarrow>
      exit_status (fst (main e b [prog, path] w)) = 1) \<and>
   (os_path_exists w path \<and>
    fst (load_and_run_body DECRYPTION_KEY e b (CythonRuntimeLoader_init path None) w) = Inl y \<and>
    is_Exception y \<longrightarrow>
      exit_status (fst (main e b [prog, path] w)) = 1) \<and>
   (os_path_exists w path \<and>
    fst (load_and_run_body DECRYPTION_KEY e b (CythonRuntimeLoader_init path None) w) = Inr m \<longrightarrow>
      exit_status (fst (main e b [prog, path] w)) = 0)"
proof (intro conjI impI)
  assume "\<not> os_path_exists w path"
  then show "exit_status (fst (main e b [prog, path] w)) = 1"
    by (simp add: main_exit_status)
next
  assume a: "os_path_exists w path \<and>
    decrypt_file DECRYPTION_KEY b (CythonRuntimeLoader_init path None) w = Inl x"
  then have "is_Exception x"
    using decrypt_file_Inl_is_Exception by blast
  moreover have "fst (load_and_run_body DECRYPTION_KEY e b (CythonRuntimeLoader_init path None) w) = Inl x"
    using a by (simp add: load_and_run_body_def)
  ultimately show "exit_status (fst (main e b [prog, path] w)) = 1"
    using a by (simp add: main_exit_status)
next
  assume "os_path_exists w path \<and>
    fst (load_and_run_body DECRYPTION_KEY e b (CythonRuntimeLoader_init path None) w) = Inl y \<and>
    is_Exception y"
  then show "exit_status (fst (main e b [prog, path] w)) = 1"
    by (simp add: main_exit_status)
next
  assume "os_path_exists w path \<and>
    fst (load_and_run_body DECRYPTION_KEY e b (CythonRuntimeLoader_init path None) w) = Inr m"
  then show "exit_status (fst (main e b [prog, path] w)) = 0"
    by (simp add: main_exit_status)
qed

lemma example_tmp_any:
  assumes "tmp_dir e = ''/tmp''" and "tmp_names e = [''abc123'']" and "platform e = ''linux''"
  shows "find (\<lambda>p. files deployed_world p = None)
     (map (\<lambda>n. tmp_dir e @ ''/tmp'' @ n @ get_extension_suffix e) (tmp_names e))
       = Some ''/tmp/tmpabc123.so''"
  using assms by (simp add: deployed_world_def get_extension_suffix_def)

lemma example_create_fault:
  "fst (load_and_run_body DECRYPTION_KEY (example_env\<lparr>create_fault := Some ImportError\<rparr>)
          toy_backend (CythonRuntimeLoader_init ''app.encrypted'' None) deployed_world)
     = Inl ImportError"
proof -
  let ?e = "example_env\<lparr>create_fault := Some ImportError\<rparr>"
  have tmp: "find (\<lambda>p. files deployed_world p = None)
     (map (\<lambda>n. tmp_dir ?e @ ''/tmp'' @ n @ get_extension_suffix ?e) (tmp_names ?e))
       = Some ''/tmp/tmpabc123.so''"
    by (rule example_tmp_any) (simp_all add: example_env_def)
  have wr: "write_fault ?e = None"
    by (simp add: example_env_def)
  show ?thesis
    unfolding load_and_run_body_staged [OF deployed_decrypt_file tmp wr]
    by (simp add: load_staged_def spec_from_file_location_def module_from_spec_def
        example_env_def endswith_def suffix_to_prefix)
qed

lemma example_body_success:
  "fst (load_and_run_body DECRYPTION_KEY (example_env\<lparr>unlink_ok := True\<rparr>)
          toy_backend (CythonRuntimeLoader_init ''app.encrypted'' None) deployed_world) = Inr 0"
  using example_run [of True]
  by (auto simp: load_and_run_def split: prod.splits sum.splits if_splits)

lemma example_paths:
  "os_path_exists deployed_world ''app.encrypted''"
  "os_path_exists corrupt_world ''app.encrypted''"
  "\<not> os_path_exists example_world ''app.encrypted''"
  by (simp_all add: os_path_exists_def deployed_world_def corrupt_world_def example_world_def)

theorem C3_exit_status_zero_or_one_witness:
  "exit_status (fst (main example_env toy_backend [''runtime_loader.py'', ''app.encrypted''] example_world)) = 1 \<and>
   exit_status (fst (main example_env toy_backend [''runtime_loader.py'', ''app.encrypted''] corrupt_world)) = 1 \<and>
   exit_status (fst (main (example_env\<lparr>create_fault := Some ImportError\<rparr>) toy_backend
       [''runtime_loader.py'', ''app.encrypted''] deployed_world)) = 1 \<and>
   exit_status (fst (main (example_env\<lparr>unlink_ok := True\<rparr>) toy_backend
       [''runtime_loader.py'', ''app.encrypted''] deployed_world)) = 0"
proof -
  note missing = C3_exit_status_zero_or_one
    [of example_world "''app.encrypted''" example_env toy_backend "''runtime_loader.py''"
        undefined undefined undefined, THEN conjunct1, THEN mp, OF example_paths(3)]
  have "os_path_exists corrupt_world ''app.encrypted'' \<and>
    decrypt_file DECRYPTION_KEY toy_backend (CythonRuntimeLoader_init ''app.encrypted'' None)
      corrupt_world = Inl (ValueError decrypt_error_message)"
    using example_paths(2) corrupt_decrypt_file by blast
  note corrupt = C3_exit_status_zero_or_one
    [of corrupt_world "''app.encrypted''" example_env toy_backend "''runtime_loader.py''"
        "ValueError decrypt_error_message" undefined undefined,
      THEN conjunct2, THEN conjunct1, THEN mp, OF this]
  have "os_path_exists deployed_world ''app.encrypted'' \<and>
    fst (load_and_run_body DECRYPTION_KEY (example_env\<lparr>create_fault := Some ImportError\<rparr>)
          toy_backend (CythonRuntimeLoader_init ''app.encrypted'' None) deployed_world)
     = Inl ImportError \<and> is_Exception ImportError"
    using example_paths(1) example_create_fault by simp
  note load = C3_exit_status_zero_or_one
    [of deployed_world "''app.encrypted''" "example_env\<lparr>create_fault := Some ImportError\<rparr>"
        toy_backend "''runtime_loader.py''" undefined ImportError undefined,
      THEN conjunct2, THEN conjunct2, THEN conjunct1, THEN mp, OF this]
  have "os_path_exists deployed_world ''app.encrypted'' \<and>
    fst (load_and_run_body DECRYPTION_KEY (example_env\<lparr>unlink_ok := True\<rparr>)
          toy_backend (CythonRuntimeLoader_init ''app.encrypted'' None) deployed_world) = Inr 0"
    using example_paths(1) example_body_success by simp
  note good = C3_exit_status_zero_or_one
    [of deployed_world "''app.encrypted''" "example_env\<lparr>unlink_ok := True\<rparr>"
        toy_backend "''runtime_loader.py''" undefined undefined 0,
      THEN conjunct2, THEN conjunct2, THEN conjunct2, THEN mp, OF this]
  from missing corrupt load good show ?thesis by blast
qed

text \<open>
  The claim as stated fails: a decryption failure and a load failure both end with exit
  status 1, not 2 and 3.
\<close>

theorem C3_counterexample:
  "decrypt_file DECRYPTION_KEY toy_backend (CythonRuntimeLoader_init ''app.encrypted'' None)
      corrupt_world = Inl (ValueError decrypt_error_message) \<and>
   exit_status (fst (main example_env toy_backend [''runtime_loader.py'', ''app.encrypted'']
      corrupt_world)) = 1 \<and>
   fst (load_and_run_body DECRYPTION_KEY (example_env\<lparr>create_fault := Some ImportError\<rparr>)
          toy_backend (CythonRuntimeLoader_init ''app.encrypted'' None) deployed_world)
     = Inl ImportError \<and>
   exit_status (fst (main (example_env\<lparr>create_fault := Some ImportError\<rparr>) toy_backend
       [''runtime_loader.py'', ''app.encrypted''] deployed_world)) = 1"
  by (simp add: main_exit_status example_paths corrupt_decrypt_file example_create_fault
      load_and_run_body_decrypt_fails [OF corrupt_decrypt_file])

section \<open>Writing the artifact\<close>

lemma encrypt_file_states_success:
  assumes "files w file_path = Some P" and "Fernet_init K = Inr f"
    and "Fernet_encrypt e b f P = Inr token"
  shows "encrypt_file_states K e b file_path output_path w =
         w # file_write_states
               (case output_path of None \<Rightarrow> file_path @ ''.encrypted'' | Some p \<Rightarrow> p) token w"
  using assms by (simp add: encrypt_file_states_def read_file_def Let_def)

lemma file_write_states_nth:
  "n \<le> length data \<Longrightarrow>
   file_write_states p data w ! n = w\<lparr>files := (files w)(p \<mapsto> take n data)\<rparr>"
  by (simp add: file_write_states_def nth_append del: upt_Suc)

lemma file_write_states_last:
  "last (file_write_states p data w) = w\<lparr>files := (files w)(p \<mapsto> data)\<rparr>"
  by (simp add: file_write_states_def)

lemma file_write_states_frame:
  "s \<in> set (file_write_states p data w) \<Longrightarrow> q \<noteq> p \<Longrightarrow> files s q = files w q"
  by (auto simp: file_write_states_def)

text \<open>
  C5 (as the code has it). \<open>encrypt_file\<close> writes the artifact directly to the final
  path: after the state before the call, the file-system states of a call that reaches
  the write are the final path holding the first \<open>n\<close> bytes of the artifact, for
  \<open>n = 0, 1, ...\<close> up to its length. No other path (so no temporary path) is
  touched, the first of these states has the final path empty, and the last one is the
  state in which an uninterrupted call returns.
\<close>

theorem C5_artifact_written_in_place:
  assumes "files w file_path = Some P" and "Fernet_init K = Inr f"
    and "Fernet_encrypt e b f P = Inr token" and "write_fault e = None"
    and "out = (case output_path of None \<Rightarrow> file_path @ ''.encrypted'' | Some p \<Rightarrow> p)"
  shows "encrypt_file_states K e b file_path output_path w =
           w # map (\<lambda>n. w\<lparr>files := (files w)(out \<mapsto> take n token)\<rparr>) [0..<Suc (length token)] \<and>
         files (encrypt_file_states K e b file_path output_path w ! 1) out = Some [] \<and>
         files (last (encrypt_file_states K e b file_path output_path w))
           = files (snd (encrypt_file K e b file_path output_path w)) \<and>
         (\<forall>s \<in> set (encrypt_file_states K e b file_path output_path w).
            \<forall>q. q \<noteq> out \<longrightarrow> files s q = files w q)"
proof -
  have st: "encrypt_file_states K e b file_path output_path w = w # file_write_states out token w"
    unfolding assms(5) by (rule encrypt_file_states_success [OF assms(1-3)])
  have "files (file_write_states out token w ! 0) out = Some []"
    by (simp add: file_write_states_nth)
  then have first: "files (encrypt_file_states K e b file_path output_path w ! 1) out = Some []"
    by (simp add: st)
  have nonempty: "file_write_states out token w \<noteq> []"
    by (simp add: file_write_states_def)
  have fin: "files (last (encrypt_file_states K e b file_path output_path w))
           = files (snd (encrypt_file K e b file_path output_path w))"
    unfolding st encrypt_file_success [OF assms(1-4)] assms(5) [symmetric]
    using nonempty by (simp add: file_write_states_last)
  have frame: "\<forall>s \<in> set (encrypt_file_states K e b file_path output_path w).
            \<forall>q. q \<noteq> out \<longrightarrow> files s q = files w q"
    unfolding st using file_write_states_frame [of _ out token w] by auto
  show ?thesis
    using first fin frame by (simp add: st file_write_states_def)
qed

lemma example_encrypt: "Fernet_encrypt example_env toy_backend shipped_fernet example_payload = Inr example_artifact"
  using Fernet_encrypt_total [OF example_env_ok, of toy_backend shipped_fernet example_payload]
  by (auto simp: example_artifact_def)

lemma example_artifact_nonempty: "example_artifact \<noteq> []"
proof
  assume "example_artifact = []"
  then have "Fernet_decrypt toy_backend shipped_fernet example_artifact = Inl InvalidToken"
    by (simp add: Fernet_decrypt_def urlsafe_b64decode_def a2b_base64_def)
  then show False
    by (simp add: example_artifact_decrypts)
qed

theorem C5_artifact_written_in_place_witness:
  "files (encrypt_file_states ENCRYPTION_KEY example_env toy_backend ''build/app.so'' None
            example_world ! 1) ''build/app.so.encrypted'' = Some [] \<and>
   files (last (encrypt_file_states ENCRYPTION_KEY example_env toy_backend ''build/app.so'' None
            example_world))
     = files (snd (encrypt_file ENCRYPTION_KEY example_env toy_backend ''build/app.so'' None
            example_world))"
proof -
  have src: "files example_world ''build/app.so'' = Some example_payload"
    by (simp add: example_world_def)
  have wr: "write_fault example_env = None"
    by (simp add: example_env_def)
  have out: "''build/app.so.encrypted'' =
      (case None of None \<Rightarrow> ''build/app.so'' @ ''.encrypted'' | Some p \<Rightarrow> p)"
    by simp
  show ?thesis
    using C5_artifact_written_in_place [OF src Fernet_init_ENCRYPTION_KEY example_encrypt wr out]
    by blast
qed

text \<open>
  The claim as stated fails: in the example, right after the output file is opened the
  final path exists and is empty, which is neither absent (as before the call) nor the
  artifact; a process interrupted there leaves a truncated artifact at the final path.
\<close>

theorem C5_counterexample:
  "files example_world ''build/app.so.encrypted'' = None \<and>
   files (encrypt_file_states ENCRYPTION_KEY example_env toy_backend ''build/app.so'' None
            example_world ! 1) ''build/app.so.encrypted'' = Some [] \<and>
   files (snd (encrypt_file ENCRYPTION_KEY example_env toy_backend ''build/app.so'' None
            example_world)) ''build/app.so.encrypted'' = Some example_artifact \<and>
   example_artifact \<noteq> []"
proof -
  have src: "files example_world ''build/app.so'' = Some example_payload"
    by (simp add: example_world_def)
  have wr: "write_fault example_env = None"
    by (simp add: example_env_def)
  have "files (file_write_states ''build/app.so.encrypted'' example_artifact example_world ! 0)
          ''build/app.so.encrypted'' = Some []"
    by (simp add: file_write_states_nth)
  then show ?thesis
    unfolding encrypt_file_states_success [OF src Fernet_init_ENCRYPTION_KEY example_encrypt]
      encrypt_file_success [OF src Fernet_init_ENCRYPTION_KEY example_encrypt wr]
    using example_artifact_nonempty by (simp add: example_world_def)
qed

section \<open>Where the key comes from\<close>

lemma environ_unused:
  "Fernet_encrypt (e\<lparr>environ := cfg\<rparr>) b f data = Fernet_encrypt e b f data"
  "Fernet_generate_key (e\<lparr>environ := cfg\<rparr>) = Fernet_generate_key e"
  "write_file (e\<lparr>environ := cfg\<rparr>) p data w = write_file e p data w"
  "input_line (e\<lparr>environ := cfg\<rparr>) i = input_line e i"
  "NamedTemporaryFile (e\<lparr>environ := cfg\<rparr>) sfx w = NamedTemporaryFile e sfx w"
  "get_extension_suffix (e\<lparr>environ := cfg\<rparr>) = get_extension_suffix e"
  "spec_from_file_location (e\<lparr>environ := cfg\<rparr>) name location = spec_from_file_location e name location"
  "module_from_spec (e\<lparr>environ := cfg\<rparr>) spec w = module_from_spec e spec w"
  "exec_module (e\<lparr>environ := cfg\<rparr>) m w = exec_module e m w"
  "os_unlink (e\<lparr>environ := cfg\<rparr>) p w = os_unlink e p w"
  by (simp_all add: Fernet_encrypt_def Fernet_generate_key_def write_file_def input_line_def
      NamedTemporaryFile_def get_extension_suffix_def spec_from_file_location_def
      module_from_spec_def exec_module_def os_unlink_def Let_def
      cong: option.case_cong if_cong)

lemma encrypt_file_environ:
  "encrypt_file K (e\<lparr>environ := cfg\<rparr>) b file_path output_path w
     = encrypt_file K e b file_path output_path w"
  unfolding encrypt_file_def environ_unused by (rule refl)

lemma encrypt_compiled_main_environ:
  "encrypt_compiled_main (e\<lparr>environ := cfg\<rparr>) b argv w = encrypt_compiled_main e b argv w"
  unfolding encrypt_compiled_main_def encrypt_file_environ generate_key_def environ_unused
  by (rule refl)

lemma load_staged_environ:
  "load_staged (e\<lparr>environ := cfg\<rparr>) self tmp w = load_staged e self tmp w"
  unfolding load_staged_def environ_unused by (rule refl)

lemma load_and_run_environ:
  "load_and_run K (e\<lparr>environ := cfg\<rparr>) b self w = load_and_run K e b self w"
  unfolding load_and_run_def load_and_run_body_def load_staged_environ environ_unused
  by (rule refl)

lemma main_environ:
  "main (e\<lparr>environ := cfg\<rparr>) b argv w = main e b argv w"
  unfolding main_def load_and_run_environ by (rule refl)

lemma app_launcher_main_environ:
  "app_launcher_main (e\<lparr>environ := cfg\<rparr>) b w = app_launcher_main e b w"
  unfolding app_launcher_main_def load_and_run_environ by (rule refl)

lemma encrypt_compiled_main_argv:
  assumes "files w path = Some P"
  shows "snd (encrypt_compiled_main e b [prog, path] w)
           = snd (encrypt_file ENCRYPTION_KEY e b path None w)"
  using assms
  by (simp add: encrypt_compiled_main_def os_path_exists_def split: prod.splits sum.splits)

text \<open>
  C7 (as the code has it). The symmetric key is compiled in: \<open>ENCRYPTION_KEY\<close> and
  \<open>DECRYPTION_KEY\<close> are the same base64 literal in both modules, no environment
  variable has any influence on the encryptor script, on \<open>main\<close> of the loader or on
  the launcher, and whatever the process configuration says, the artifact that the
  encryptor script writes for the file named on its command line is opened by that
  literal.
\<close>

theorem C7_key_is_compiled_in:
  "ENCRYPTION_KEY = bytes_of ''2A4cD5H-9n-y2SrQRT3UZ9cPaZFo5a0iAdRQeT7ZnUw='' \<and>
   DECRYPTION_KEY = bytes_of ''2A4cD5H-9n-y2SrQRT3UZ9cPaZFo5a0iAdRQeT7ZnUw='' \<and>
   encrypt_compiled_main (e\<lparr>environ := cfg\<rparr>) b argv w = encrypt_compiled_main e b argv w \<and>
   main (e\<lparr>environ := cfg\<rparr>) b argv w = main e b argv w \<and>
   app_launcher_main (e\<lparr>environ := cfg\<rparr>) b w = app_launcher_main e b w \<and>
   (backend_ok b \<and> env_ok e \<and> write_fault e = None \<and> files w path = Some P \<longrightarrow>
      decrypt_file (bytes_of ''2A4cD5H-9n-y2SrQRT3UZ9cPaZFo5a0iAdRQeT7ZnUw='') b
          (CythonRuntimeLoader_init (path @ ''.encrypted'') None)
          (snd (encrypt_compiled_main (e\<lparr>environ := cfg\<rparr>) b [prog, path] w))
        = Inr P)"
proof (intro conjI impI)
  show "ENCRYPTION_KEY = bytes_of ''2A4cD5H-9n-y2SrQRT3UZ9cPaZFo5a0iAdRQeT7ZnUw=''"
    by (simp add: ENCRYPTION_KEY_def)
  show "DECRYPTION_KEY = bytes_of ''2A4cD5H-9n-y2SrQRT3UZ9cPaZFo5a0iAdRQeT7ZnUw=''"
    by (simp add: DECRYPTION_KEY_def)
  show "encrypt_compiled_main (e\<lparr>environ := cfg\<rparr>) b argv w = encrypt_compiled_main e b argv w"
    by (rule encrypt_compiled_main_environ)
  show "main (e\<lparr>environ := cfg\<rparr>) b argv w = main e b argv w"
    by (rule main_environ)
  show "app_launcher_main (e\<lparr>environ := cfg\<rparr>) b w = app_launcher_main e b w"
    by (rule app_launcher_main_environ)
next
  assume a: "backend_ok b \<and> env_ok e \<and> write_fault e = None \<and> files w path = Some P"
  then obtain out w' where enc: "encrypt_file ENCRYPTION_KEY e b path None w = (Inr out, w')"
    and out: "out = (case None of None \<Rightarrow> path @ ''.encrypted'' | Some p \<Rightarrow> p)"
    and dec: "decrypt_file ENCRYPTION_KEY b (CythonRuntimeLoader_init out None) w' = Inr P"
    using encrypt_then_decrypt [of b ENCRYPTION_KEY shipped_fernet w path P e None None]
      Fernet_init_ENCRYPTION_KEY by blast
  have "snd (encrypt_compiled_main (e\<lparr>environ := cfg\<rparr>) b [prog, path] w) = w'"
    using a enc by (simp add: encrypt_compiled_main_environ encrypt_compiled_main_argv)
  then show "decrypt_file (bytes_of ''2A4cD5H-9n-y2SrQRT3UZ9cPaZFo5a0iAdRQeT7ZnUw='') b
          (CythonRuntimeLoader_init (path @ ''.encrypted'') None)
          (snd (encrypt_compiled_main (e\<lparr>environ := cfg\<rparr>) b [prog, path] w))
        = Inr P"
    using dec out by (simp add: ENCRYPTION_KEY_def)
qed

theorem C7_key_is_compiled_in_witness:
  "decrypt_file (bytes_of ''2A4cD5H-9n-y2SrQRT3UZ9cPaZFo5a0iAdRQeT7ZnUw='') toy_backend
      (CythonRuntimeLoader_init (''build/app.so'' @ ''.encrypted'') None)
      (snd (encrypt_compiled_main (example_env\<lparr>environ := Map.empty\<rparr>) toy_backend
             [''encrypt_compiled.py'', ''build/app.so''] example_world))
    = Inr example_payload"
proof -
  have "backend_ok toy_backend \<and> env_ok example_env \<and> write_fault example_env = None \<and>
        files example_world ''build/app.so'' = Some example_payload"
    using toy_backend_ok example_env_ok by (simp add: example_env_def example_world_def)
  from C7_key_is_compiled_in
    [where e = example_env and cfg = Map.empty and b = toy_backend and w = example_world
        and path = "''build/app.so''" and P = example_payload and prog = "''encrypt_compiled.py''",
      THEN conjunct2, THEN conjunct2, THEN conjunct2, THEN conjunct2, THEN conjunct2, THEN mp,
      OF this]
  show ?thesis .
qed

text \<open>
  The claim as stated fails: with another valid Fernet key supplied in the environment,
  the encryptor script still seals the payload with the literal, and the literal is
  what opens the artifact.
\<close>

theorem C7_counterexample:
  "ENCRYPTION_KEY = bytes_of ''2A4cD5H-9n-y2SrQRT3UZ9cPaZFo5a0iAdRQeT7ZnUw='' \<and>
   DECRYPTION_KEY = bytes_of ''2A4cD5H-9n-y2SrQRT3UZ9cPaZFo5a0iAdRQeT7ZnUw='' \<and>
   snd (encrypt_compiled_main
          (example_env\<lparr>environ := [''ENCRYPTION_KEY'' \<mapsto> ''AAAAAAAAAAAAAAAAAAAAAAAAAAAAAAAAAAAAAAAAAAA='']\<rparr>)
          toy_backend [''encrypt_compiled.py'', ''build/app.so''] example_world)
     = snd (encrypt_file (bytes_of ''2A4cD5H-9n-y2SrQRT3UZ9cPaZFo5a0iAdRQeT7ZnUw='')
              example_env toy_backend ''build/app.so'' None example_world) \<and>
   decrypt_file (bytes_of ''2A4cD5H-9n-y2SrQRT3UZ9cPaZFo5a0iAdRQeT7ZnUw='') toy_backend
      (CythonRuntimeLoader_init ''build/app.so.encrypted'' None)
      (snd (encrypt_compiled_main
          (example_env\<lparr>environ := [''ENCRYPTION_KEY'' \<mapsto> ''AAAAAAAAAAAAAAAAAAAAAAAAAAAAAAAAAAAAAAAAAAA='']\<rparr>)
          toy_backend [''encrypt_compiled.py'', ''build/app.so''] example_world))
     = Inr example_payload"
proof -
  have src: "files example_world ''build/app.so'' = Some example_payload"
    by (simp add: example_world_def)
  have wr: "write_fault example_env = None"
    by (simp add: example_env_def)
  obtain out w' where enc: "encrypt_file ENCRYPTION_KEY example_env toy_backend ''build/app.so'' None
        example_world = (Inr out, w')"
    and out: "out = (case None of None \<Rightarrow> ''build/app.so'' @ ''.encrypted'' | Some p \<Rightarrow> p)"
    and dec: "decrypt_file ENCRYPTION_KEY toy_backend (CythonRuntimeLoader_init out None) w'
        = Inr example_payload"
    using encrypt_then_decrypt [OF toy_backend_ok Fernet_init_ENCRYPTION_KEY src example_env_ok wr,
        of None None] by blast
  have key: "ENCRYPTION_KEY = bytes_of ''2A4cD5H-9n-y2SrQRT3UZ9cPaZFo5a0iAdRQeT7ZnUw=''"
    by (simp add: ENCRYPTION_KEY_def)
  have key': "DECRYPTION_KEY = bytes_of ''2A4cD5H-9n-y2SrQRT3UZ9cPaZFo5a0iAdRQeT7ZnUw=''"
    by (simp add: DECRYPTION_KEY_def)
  show ?thesis
    unfolding encrypt_compiled_main_environ encrypt_compiled_main_argv [OF src]
      key [symmetric] enc
    using dec out key key' by simp
qed

section \<open>Tampering with an artifact\<close>







lemma urlsafe_encode_translation_pad [simp]:
  "urlsafe_encode_translation BASE64_PAD = BASE64_PAD"
  "urlsafe_decode_translation BASE64_PAD = BASE64_PAD"
  by (simp_all add: urlsafe_encode_translation_def urlsafe_decode_translation_def BASE64_PAD_def)



section \<open>Modified artifacts\<close>



lemma flip_slack_bit_length [simp]: "length (flip_slack_bit art) = length art"
  by (simp add: flip_slack_bit_def Let_def split: option.splits)



















end
